theory Spec2Isabelle
  imports Main "HOL-Library.Sublist"
begin

section \<open>Python values shared by the two modules\<close>

text \<open>
  Exceptions are values.  \<open>ImportError\<close> is the only exception that \<^verbatim>\<open>api.py\<close> raises
  itself (in \<^verbatim>\<open>not_available\<close>); \<open>IndexError\<close> and \<open>AttributeError\<close> are what Python
  raises for a string index out of range and for an attribute that was never assigned;
  \<open>StopIteration\<close> is what \<^verbatim>\<open>next\<close> raises on an exhausted iterator; \<open>ValueError\<close> and
  \<open>OverflowError\<close> are what the builtin \<^verbatim>\<open>len\<close> raises when \<^verbatim>\<open>__len__\<close> returns a negative
  number or one above \<^verbatim>\<open>sys.maxsize\<close>; \<open>RuntimeError\<close> is what Python 3.7 and later raise
  when a generator's body raises StopIteration, and what an imageio reader raises when it is
  used after it was closed.  Whatever else a collaborator outside the two modules raises
  (imageio, a reader class, a viewer plug-in) is carried unchanged as \<open>Raised\<close> with its
  text.
\<close>

datatype exn =
    ImportError string
  | IndexError
  | AttributeError string
  | StopIteration
  | ValueError
  | OverflowError
  | RuntimeError string
  | Raised string

type_synonym kwargs = "(string \<times> string) list"

section \<open>\<^verbatim>\<open>api.py\<close>: placeholders for readers whose library is missing\<close>

text \<open>
  \<^verbatim>\<open>
  def not_available(requirement):
      def raiser(*args, **kwargs):
          raise ImportError(
              "This reader requires {0}.".format(requirement))
      return raiser
  \<close>
  A reader class and the placeholder are both callables from an argument list and keyword
  arguments to a reader \<open>'rd\<close> or an exception.
\<close>

type_synonym ('a, 'rd) ctor = "'a list \<Rightarrow> kwargs \<Rightarrow> exn + 'rd"

definition not_available :: "string \<Rightarrow> ('a, 'rd) ctor" where
  "not_available requirement =
     (\<lambda>args kw. Inl (ImportError (''This reader requires '' @ requirement @ ''.'')))"

text \<open>
  What the import-time code of \<^verbatim>\<open>api.py\<close> reads from the process: whether each optional
  library is there.  \<open>pyav_ok\<close>, \<open>bioformats_ok\<close> and \<open>nd2_ok\<close> say that the \<^verbatim>\<open>try\<close> block of
  that reader ran to its end (the import succeeded, \<^verbatim>\<open>available()\<close> was true and the
  registration raised neither ImportError nor IOError); the three TIFF flags are the results
  of \<^verbatim>\<open>tifffile_available()\<close>, \<^verbatim>\<open>libtiff_available()\<close> and \<^verbatim>\<open>PIL_available()\<close>.
\<close>

record libs =
  pyav_ok :: bool
  tifffile_available :: bool
  libtiff_available :: bool
  PIL_available :: bool
  bioformats_ok :: bool
  nd2_ok :: bool

text \<open>The reader classes the optional modules export, given from outside.\<close>

record ('a, 'rd) classes =
  PyAVVideoReader :: "('a, 'rd) ctor"
  TiffStack_tifffile_class :: "('a, 'rd) ctor"
  TiffStack_libtiff_class :: "('a, 'rd) ctor"
  TiffStack_pil_class :: "('a, 'rd) ctor"
  BioformatsReader :: "('a, 'rd) ctor"
  ND2_Reader_class :: "('a, 'rd) ctor"

text \<open>The module-level names, in the order \<^verbatim>\<open>api.py\<close> binds them (lines 82 to 168).\<close>

definition Video :: "libs \<Rightarrow> ('a, 'rd) classes \<Rightarrow> ('a, 'rd) ctor" where
  "Video l c = (if pyav_ok l then PyAVVideoReader c
                else not_available ''PyAV and/or PIL/Pillow'')"

definition TiffStack_tifffile :: "libs \<Rightarrow> ('a, 'rd) classes \<Rightarrow> ('a, 'rd) ctor" where
  "TiffStack_tifffile l c = (if tifffile_available l then TiffStack_tifffile_class c
                             else not_available ''tifffile'')"

definition TiffStack_libtiff :: "libs \<Rightarrow> ('a, 'rd) classes \<Rightarrow> ('a, 'rd) ctor" where
  "TiffStack_libtiff l c = (if libtiff_available l then TiffStack_libtiff_class c
                            else not_available ''libtiff'')"

definition TiffStack_pil :: "libs \<Rightarrow> ('a, 'rd) classes \<Rightarrow> ('a, 'rd) ctor" where
  "TiffStack_pil l c = (if PIL_available l then TiffStack_pil_class c
                        else not_available ''PIL or Pillow'')"

definition TiffStack :: "libs \<Rightarrow> ('a, 'rd) classes \<Rightarrow> ('a, 'rd) ctor" where
  "TiffStack l c =
     (if tifffile_available l then TiffStack_tifffile l c
      else if libtiff_available l then TiffStack_libtiff l c
      else if PIL_available l then TiffStack_pil l c
      else not_available ''tifffile, libtiff, or PIL/Pillow'')"

definition Bioformats :: "libs \<Rightarrow> ('a, 'rd) classes \<Rightarrow> ('a, 'rd) ctor" where
  "Bioformats l c = (if bioformats_ok l then BioformatsReader c
                     else not_available ''JPype'')"

definition ND2_Reader :: "libs \<Rightarrow> ('a, 'rd) classes \<Rightarrow> ('a, 'rd) ctor" where
  "ND2_Reader l c = (if nd2_ok l then ND2_Reader_class c
                     else not_available ''pims_nd2'')"

text \<open>
  The seven names as data, so that one statement can range over them: the name's binding,
  whether the library it stands for is there, and the dependency its placeholder names.
\<close>

datatype backend_name =
    N_Video | N_TiffStack_tifffile | N_TiffStack_libtiff | N_TiffStack_pil
  | N_TiffStack | N_Bioformats | N_ND2_Reader

fun binding :: "libs \<Rightarrow> ('a, 'rd) classes \<Rightarrow> backend_name \<Rightarrow> ('a, 'rd) ctor" where
  "binding l c N_Video = Video l c"
| "binding l c N_TiffStack_tifffile = TiffStack_tifffile l c"
| "binding l c N_TiffStack_libtiff = TiffStack_libtiff l c"
| "binding l c N_TiffStack_pil = TiffStack_pil l c"
| "binding l c N_TiffStack = TiffStack l c"
| "binding l c N_Bioformats = Bioformats l c"
| "binding l c N_ND2_Reader = ND2_Reader l c"

fun library_present :: "libs \<Rightarrow> backend_name \<Rightarrow> bool" where
  "library_present l N_Video = pyav_ok l"
| "library_present l N_TiffStack_tifffile = tifffile_available l"
| "library_present l N_TiffStack_libtiff = libtiff_available l"
| "library_present l N_TiffStack_pil = PIL_available l"
| "library_present l N_TiffStack =
     (tifffile_available l \<or> libtiff_available l \<or> PIL_available l)"
| "library_present l N_Bioformats = bioformats_ok l"
| "library_present l N_ND2_Reader = nd2_ok l"

fun dependency :: "backend_name \<Rightarrow> string" where
  "dependency N_Video = ''PyAV and/or PIL/Pillow''"
| "dependency N_TiffStack_tifffile = ''tifffile''"
| "dependency N_TiffStack_libtiff = ''libtiff''"
| "dependency N_TiffStack_pil = ''PIL or Pillow''"
| "dependency N_TiffStack = ''tifffile, libtiff, or PIL/Pillow''"
| "dependency N_Bioformats = ''JPype''"
| "dependency N_ND2_Reader = ''pims_nd2''"

section \<open>\<^verbatim>\<open>api.py\<close>: the format wrapper \<^verbatim>\<open>PimsFormat\<close>\<close>

text \<open>
  A format carries the fields imageio's \<^verbatim>\<open>Format\<close> keeps: \<open>extensions\<close> is the tuple of
  extension strings and \<open>modes\<close> the string of mode letters.  A request carries the file name
  and the two-letter mode string (\<^verbatim>\<open>request.mode[1]\<close> is the kind of data asked for, with
  \<^verbatim>\<open>?\<close> for "don't care").
\<close>

record Format =
  fmt_name :: string
  extensions :: "string list"
  modes :: string

record Request =
  req_filename :: string
  req_mode :: string

text \<open>\<^verbatim>\<open>s.endswith(t)\<close> for a tuple \<open>t\<close>: some member of the tuple is a suffix of \<open>s\<close>.\<close>

definition endswith :: "string \<Rightarrow> string list \<Rightarrow> bool" where
  "endswith s t = (\<exists>e \<in> set t. suffix e s)"

text \<open>
  \<^verbatim>\<open>
  def _can_read(self, request):
      if request.mode[1] in (self.modes + '?'):
          if request.filename.lower().endswith(self.extensions):
              return True

  def _can_write(self, request):
      return False
  \<close>
  \<open>_can_read\<close> returns \<open>True\<close> or falls off its end and returns \<open>None\<close>: the result is
  \<open>Some True\<close> or \<open>None\<close>.  Indexing a mode string shorter than two characters raises
  IndexError.  \<open>str_lower\<close> is Python's \<^verbatim>\<open>str.lower\<close>, given from outside: it follows the
  Unicode case mappings of the interpreter.  (A \<open>char\<close> here is a byte, so a name with
  characters beyond ASCII is its UTF-8 text.)
\<close>

definition can_read :: "(string \<Rightarrow> string) \<Rightarrow> Format \<Rightarrow> Request \<Rightarrow> exn + bool option" where
  "can_read str_lower self request =
     (if length (req_mode request) < 2 then Inl IndexError
      else if req_mode request ! 1 \<in> set (modes self @ ''?'') then
        (if endswith (str_lower (req_filename request)) (extensions self)
         then Inr (Some True) else Inr None)
      else Inr None)"

definition can_write :: "Format \<Rightarrow> Request \<Rightarrow> bool" where
  "can_write self request = False"

text \<open>The truth value Python gives the result where the caller tests it.\<close>

definition truthy :: "bool option \<Rightarrow> bool" where
  "truthy r = (r = Some True)"

text \<open>
  The words of the specification, to compare \<open>can_read\<close> with.  Two characters are the
  same letter when they are equal or are the capital and the small form of one of the 26
  ASCII letters; a file name has the extension \<open>e\<close> when its last \<open>length e\<close> characters are,
  one by one, the same letters as those of \<open>e\<close>.  This comparison does not go through any
  lower-casing function.  \<open>no_upper e\<close>: the declared extension \<open>e\<close> has no capital letter
  (the data model keeps extensions in lower case).  \<open>ext_of\<close> is the part of a name from its
  last dot on (empty when the name has no dot).
\<close>

definition letter_pairs :: "(char \<times> char) list" where
  "letter_pairs = zip ''ABCDEFGHIJKLMNOPQRSTUVWXYZ'' ''abcdefghijklmnopqrstuvwxyz''"

definition same_letter :: "char \<Rightarrow> char \<Rightarrow> bool" where
  "same_letter c d = (c = d \<or> (c, d) \<in> set letter_pairs \<or> (d, c) \<in> set letter_pairs)"

definition has_extension :: "string \<Rightarrow> string \<Rightarrow> bool" where
  "has_extension fname e =
     (length e \<le> length fname
      \<and> list_all2 same_letter (drop (length fname - length e) fname) e)"

definition no_upper :: "string \<Rightarrow> bool" where
  "no_upper e = list_all (\<lambda>c. c \<notin> fst ` set letter_pairs) e"

definition ext_of :: "string \<Rightarrow> string" where
  "ext_of s =
     (if CHR ''.'' \<in> set s
      then CHR ''.'' # rev (takeWhile (\<lambda>c. c \<noteq> CHR ''.'') (rev s)) else [])"

text \<open>
  What is known of \<^verbatim>\<open>str.lower\<close> without the Unicode tables: on a name of ASCII characters
  only, it replaces each capital letter by its small form and leaves every other character
  (\<open>ascii_lower\<close>).
\<close>

definition ascii_lower_char :: "char \<Rightarrow> char" where
  "ascii_lower_char c = (case map_of letter_pairs c of None \<Rightarrow> c | Some d \<Rightarrow> d)"

definition ascii_lower :: "string \<Rightarrow> string" where
  "ascii_lower s = map ascii_lower_char s"

definition is_ascii :: "string \<Rightarrow> bool" where
  "is_ascii s = list_all (\<lambda>c. (of_char c :: nat) < 128) s"

definition lower_on_ascii :: "(string \<Rightarrow> string) \<Rightarrow> bool" where
  "lower_on_ascii str_lower = (\<forall>s. is_ascii s \<longrightarrow> str_lower s = ascii_lower s)"

section \<open>\<^verbatim>\<open>api.py\<close>: \<^verbatim>\<open>ImageIOReader\<close> and \<^verbatim>\<open>open\<close>\<close>

text \<open>
  An array has a shape, an element type and its elements.  imageio's \<^verbatim>\<open>get_data\<close> returns
  an array with a \<^verbatim>\<open>meta\<close> dictionary; a pims \<^verbatim>\<open>Frame\<close> is an array with \<^verbatim>\<open>frame_no\<close> and
  \<^verbatim>\<open>metadata\<close>.
\<close>

record ndarray =
  shape :: "nat list"
  dtype :: string
  pixels :: "int list"

type_synonym metadata = "(string \<times> string) list"

record Array =
  arr :: ndarray
  meta :: metadata

record Frame =
  payload :: ndarray
  frame_no :: int
  metadata :: metadata

text \<open>
  Everything \<^verbatim>\<open>open\<close> and \<^verbatim>\<open>ImageIOReader\<close> call outside \<^verbatim>\<open>api.py\<close>, given from outside:
  \<^verbatim>\<open>glob.glob\<close>, the \<^verbatim>\<open>ImageSequence\<close> constructor, imageio's \<^verbatim>\<open>get_reader\<close> and the methods
  of the reader object it returns.  A reader object is a state \<open>'r\<close>; a method takes the state
  and returns its result (or the exception it raises) with the new state.  \<open>rd_iter_data\<close>
  starts an iteration and \<open>rd_next\<close> is \<^verbatim>\<open>next\<close> on the iterator that \<^verbatim>\<open>iter_data()\<close>
  returned.  \<open>path_exists\<close> is the file system as \<^verbatim>\<open>os.path.exists\<close> sees it; \<^verbatim>\<open>api.py\<close>
  never reads it.  Two facts about the interpreter the code runs on: \<open>maxsize\<close> is
  \<^verbatim>\<open>sys.maxsize\<close>, and \<open>pep479\<close> says that a StopIteration raised in a generator's body
  becomes a RuntimeError (Python 3.7 and later) instead of ending the generator silently
  (the module imports \<^verbatim>\<open>six\<close> and \<^verbatim>\<open>__future__\<close> to run on both).
\<close>

record ('r, 's) env =
  glob :: "string \<Rightarrow> string list"
  path_exists :: "string \<Rightarrow> bool"
  ImageSequence :: "string \<Rightarrow> kwargs \<Rightarrow> exn + 's"
  get_reader :: "string \<Rightarrow> kwargs \<Rightarrow> exn + 'r"
  rd_get_length :: "'r \<Rightarrow> (exn + int) \<times> 'r"
  rd_get_data :: "'r \<Rightarrow> int \<Rightarrow> (exn + Array) \<times> 'r"
  rd_get_meta_data :: "'r \<Rightarrow> int option \<Rightarrow> (exn + metadata) \<times> 'r"
  rd_iter_data :: "'r \<Rightarrow> 'r"
  rd_next :: "'r \<Rightarrow> (exn + Array) \<times> 'r"
  rd_close :: "'r \<Rightarrow> (exn + unit) \<times> 'r"
  maxsize :: int
  pep479 :: bool

text \<open>
  The attributes of an \<^verbatim>\<open>ImageIOReader\<close>.  \<^verbatim>\<open>_shape\<close> and \<^verbatim>\<open>_dtype\<close> are assigned last in
  the constructor; \<open>None\<close> is the attribute not assigned yet.
\<close>

record 'r ImageIOReader =
  reader :: 'r
  filename :: string
  priv_len :: int
  priv_shape :: "nat list option"
  priv_dtype :: "string option"

text \<open>
  \<^verbatim>\<open>
  def get_frame(self, i):
      frame = self.reader.get_data(i)
      return Frame(frame, frame_no=i, metadata=frame.meta)
  \<close>
\<close>

definition get_frame ::
  "('r, 's) env \<Rightarrow> 'r ImageIOReader \<Rightarrow> int \<Rightarrow> (exn + Frame) \<times> 'r ImageIOReader" where
  "get_frame w self i =
     (case rd_get_data w (reader self) i of
        (Inl e, r') \<Rightarrow> (Inl e, self\<lparr>reader := r'\<rparr>)
      | (Inr frame, r') \<Rightarrow>
          (Inr \<lparr>payload = arr frame, frame_no = i, metadata = meta frame\<rparr>,
           self\<lparr>reader := r'\<rparr>))"

text \<open>
  \<^verbatim>\<open>
  def __init__(self, filename, **kwargs):
      self.reader = get_reader(filename, **kwargs)
      self.filename = filename
      self._len = self.reader.get_length()

      first_frame = self.get_frame(0)
      self._shape = first_frame.shape
      self._dtype = first_frame.dtype
  \<close>
  An exception anywhere leaves the constructor, and no object is returned.
\<close>

definition ImageIOReader_init ::
  "('r, 's) env \<Rightarrow> string \<Rightarrow> kwargs \<Rightarrow> exn + 'r ImageIOReader" where
  "ImageIOReader_init w fname kw =
     (case get_reader w fname kw of
        Inl e \<Rightarrow> Inl e
      | Inr r0 \<Rightarrow>
          (case rd_get_length w r0 of
             (Inl e, r1) \<Rightarrow> Inl e
           | (Inr n, r1) \<Rightarrow>
               (case get_frame w \<lparr>reader = r1, filename = fname, priv_len = n,
                                  priv_shape = None, priv_dtype = None\<rparr> 0 of
                  (Inl e, self) \<Rightarrow> Inl e
                | (Inr first_frame, self) \<Rightarrow>
                    Inr (self\<lparr>priv_shape := Some (shape (payload first_frame)),
                              priv_dtype := Some (dtype (payload first_frame))\<rparr>))))"

text \<open>
  \<^verbatim>\<open>
  def get_metadata(self):
      return self.reader.get_meta_data(None)

  def __len__(self):
      return self._len
  \<close>
\<close>

definition get_metadata ::
  "('r, 's) env \<Rightarrow> 'r ImageIOReader \<Rightarrow> (exn + metadata) \<times> 'r ImageIOReader" where
  "get_metadata w self =
     (case rd_get_meta_data w (reader self) None of
        (res, r') \<Rightarrow> (res, self\<lparr>reader := r'\<rparr>))"

definition len :: "'r ImageIOReader \<Rightarrow> int" where
  "len self = priv_len self"

text \<open>
  \<^verbatim>\<open>
  def __iter__(self):
      iterable = self.reader.iter_data()
      for i in range(len(self)):
          frame = next(iterable)
          yield Frame(frame, frame_no=i, metadata=frame.meta)
  \<close>
  The generator run to its end: the frames it yields in order, the exception that ended it
  (\<open>None\<close> when the loop finished), and the reader afterwards.  \<open>py_range n\<close> is Python's
  \<^verbatim>\<open>range(n)\<close>, empty for \<open>n \<le> 0\<close>; \<open>py_len mx n\<close> is the builtin \<^verbatim>\<open>len\<close> on an object
  whose \<^verbatim>\<open>__len__\<close> returns \<open>n\<close>, where \<^verbatim>\<open>sys.maxsize\<close> is \<open>mx\<close>; \<open>generator_exit\<close> is how
  the generator ends when \<^verbatim>\<open>next(iterable)\<close> raises in its body.
\<close>

definition py_len :: "int \<Rightarrow> int \<Rightarrow> exn + int" where
  "py_len mx n =
     (if n < 0 then Inl ValueError else if mx < n then Inl OverflowError else Inr n)"

definition generator_exit :: "bool \<Rightarrow> exn \<Rightarrow> exn option" where
  "generator_exit pep e =
     (if e = StopIteration
      then (if pep then Some (RuntimeError ''generator raised StopIteration'') else None)
      else Some e)"

definition py_range :: "int \<Rightarrow> int list" where
  "py_range n = map int [0 ..< nat n]"

fun iter_loop ::
  "('r, 's) env \<Rightarrow> int list \<Rightarrow> 'r \<Rightarrow> Frame list \<times> exn option \<times> 'r" where
  "iter_loop w [] r = ([], None, r)"
| "iter_loop w (i # rest) r =
     (case rd_next w r of
        (Inl e, r') \<Rightarrow> ([], generator_exit (pep479 w) e, r')
      | (Inr frame, r') \<Rightarrow>
          (case iter_loop w rest r' of
             (fs, out, r'') \<Rightarrow>
               (\<lparr>payload = arr frame, frame_no = i, metadata = meta frame\<rparr> # fs, out, r'')))"

definition iter_frames ::
  "('r, 's) env \<Rightarrow> 'r ImageIOReader \<Rightarrow> Frame list \<times> exn option \<times> 'r ImageIOReader" where
  "iter_frames w self =
     (let iterable = rd_iter_data w (reader self) in
      case py_len (maxsize w) (len self) of
        Inl e \<Rightarrow> ([], Some e, self\<lparr>reader := iterable\<rparr>)
      | Inr n \<Rightarrow>
          (case iter_loop w (py_range n) iterable of
             (fs, out, r') \<Rightarrow> (fs, out, self\<lparr>reader := r'\<rparr>)))"

text \<open>
  \<^verbatim>\<open>
  @property
  def frame_shape(self):
      return self._shape

  @property
  def pixel_type(self):
      return self._dtype

  def close(self):
      self.reader.close()
  \<close>
\<close>

definition frame_shape :: "'r ImageIOReader \<Rightarrow> exn + nat list" where
  "frame_shape self =
     (case priv_shape self of None \<Rightarrow> Inl (AttributeError ''_shape'') | Some s \<Rightarrow> Inr s)"

definition pixel_type :: "'r ImageIOReader \<Rightarrow> exn + string" where
  "pixel_type self =
     (case priv_dtype self of None \<Rightarrow> Inl (AttributeError ''_dtype'') | Some d \<Rightarrow> Inr d)"

definition close ::
  "('r, 's) env \<Rightarrow> 'r ImageIOReader \<Rightarrow> exn option \<times> 'r ImageIOReader" where
  "close w self =
     (case rd_close w (reader self) of
        (Inl e, r') \<Rightarrow> (Some e, self\<lparr>reader := r'\<rparr>)
      | (Inr u, r') \<Rightarrow> (None, self\<lparr>reader := r'\<rparr>))"

text \<open>
  \<^verbatim>\<open>
  def open(sequence, **kwargs):
      files = glob.glob(sequence)
      if len(files) > 1:
          return ImageSequence(sequence, **kwargs)

      # else: let ImageIO decide on the reader
      return ImageIOReader(sequence, **kwargs)
  \<close>
\<close>

datatype ('r, 's) opened = Collection 's | Single "'r ImageIOReader"

definition pims_open :: "('r, 's) env \<Rightarrow> string \<Rightarrow> kwargs \<Rightarrow> exn + ('r, 's) opened" where
  "pims_open w sequence kw =
     (let files = glob w sequence in
      if length files > 1 then
        (case ImageSequence w sequence kw of Inl e \<Rightarrow> Inl e | Inr s \<Rightarrow> Inr (Collection s))
      else
        (case ImageIOReader_init w sequence kw of Inl e \<Rightarrow> Inl e | Inr rd \<Rightarrow> Inr (Single rd)))"

text \<open>
  Modelled from the spec: the indexing of the sequence (\<^verbatim>\<open>get\<close>, Python's \<^verbatim>\<open>reader[i]\<close>),
  which \<^verbatim>\<open>ImageIOReader\<close> inherits from \<^verbatim>\<open>FramesSequence\<close> of \<^verbatim>\<open>pims.base_frames\<close>; that
  module is not among the sources.  The specification (section 4.3): the index must be an
  integer in \<open>[-length, length)\<close>; negative indices count from the end, \<open>-1\<close> is the last
  frame; it fails with IndexOutOfRange otherwise (Python's IndexError).  The frame itself
  comes from \<^verbatim>\<open>get_frame\<close> of \<^verbatim>\<open>api.py\<close>, called with the index counted from the start.
\<close>

definition get ::
  "('r, 's) env \<Rightarrow> 'r ImageIOReader \<Rightarrow> int \<Rightarrow> (exn + Frame) \<times> 'r ImageIOReader" where
  "get w self i =
     (if - len self \<le> i \<and> i < len self
      then get_frame w self (if i < 0 then i + len self else i)
      else (Inl IndexError, self))"

text \<open>
  The life of an \<^verbatim>\<open>ImageIOReader\<close> after its construction is a list of uses of its methods
  and properties; \<open>apply_use\<close> gives the object after one of them and \<open>lifetime\<close> after all of them
  in order.  The two properties and \<^verbatim>\<open>len\<close> leave the object as it is.  The property
  \<^verbatim>\<open>frame_rate\<close> is left out: it calls \<^verbatim>\<open>get_meta_data\<close>, which \<^verbatim>\<open>api.py\<close> does not define
  for this class; so are the methods inherited from \<^verbatim>\<open>FramesSequence\<close>, which live in
  another module.
\<close>

datatype use =
    Use_get_frame int
  | Use_get_metadata
  | Use_len
  | Use_iter
  | Use_frame_shape
  | Use_pixel_type
  | Use_close

fun apply_use :: "('r, 's) env \<Rightarrow> 'r ImageIOReader \<Rightarrow> use \<Rightarrow> 'r ImageIOReader" where
  "apply_use w self (Use_get_frame i) = snd (get_frame w self i)"
| "apply_use w self Use_get_metadata = snd (get_metadata w self)"
| "apply_use w self Use_len = self"
| "apply_use w self Use_iter = snd (snd (iter_frames w self))"
| "apply_use w self Use_frame_shape = self"
| "apply_use w self Use_pixel_type = self"
| "apply_use w self Use_close = snd (close w self)"

definition lifetime :: "('r, 's) env \<Rightarrow> 'r ImageIOReader \<Rightarrow> use list \<Rightarrow> 'r ImageIOReader" where
  "lifetime w self us = foldl (apply_use w) self us"

text \<open>
  Two conditions on a backend.  \<open>frame0_stable w r1 self0\<close>: frame 0 of this one reader
  does not change while it is open; that is, the array \<^verbatim>\<open>get_data(0)\<close> returned to the
  constructor, when the reader's state was \<open>r1\<close>, is the array every successful
  \<^verbatim>\<open>get_data(0)\<close> returns at any later moment of the life of the object \<open>self0\<close>.  Nothing
  is asked of other frames, other readers or failing calls.
  \<open>supplies w r as\<close>: \<^verbatim>\<open>next\<close> on the iterator of reader \<open>r\<close> gives the arrays \<open>as\<close>, one
  after the other, without raising.
\<close>

definition frame0_stable :: "('r, 's) env \<Rightarrow> 'r \<Rightarrow> 'r ImageIOReader \<Rightarrow> bool" where
  "frame0_stable w r1 self0 =
     (\<forall>a us a'. fst (rd_get_data w r1 0) = Inr a \<longrightarrow>
        fst (rd_get_data w (reader (lifetime w self0 us)) 0) = Inr a' \<longrightarrow> a' = a)"

fun supplies :: "('r, 's) env \<Rightarrow> 'r \<Rightarrow> Array list \<Rightarrow> bool" where
  "supplies w r [] = True"
| "supplies w r (a # rest) =
     (case rd_next w r of
        (Inl e, r') \<Rightarrow> False
      | (Inr a', r') \<Rightarrow> a' = a \<and> supplies w r' rest)"

text \<open>
  What imageio documents of a reader and closing, as a condition on the backend; \<open>closed\<close>
  tells which reader states are closed (imageio's \<^verbatim>\<open>closed\<close> property).  After \<^verbatim>\<open>close()\<close>
  the reader is closed, whether or not releasing its resources raised; \<^verbatim>\<open>close()\<close> on a
  closed reader has no effect; \<^verbatim>\<open>get_data\<close> on a closed reader raises RuntimeError and
  leaves it as it is; and no method opens a closed reader again.
\<close>

definition reader_contract :: "('r, 's) env \<Rightarrow> ('r \<Rightarrow> bool) \<Rightarrow> bool" where
  "reader_contract w closed =
     ((\<forall>r. closed (snd (rd_close w r)))
      \<and> (\<forall>r. closed r \<longrightarrow> rd_close w r = (Inr (), r))
      \<and> (\<forall>r i. closed r \<longrightarrow> (\<exists>msg. rd_get_data w r i = (Inl (RuntimeError msg), r)))
      \<and> (\<forall>r i. closed r \<longrightarrow> closed (snd (rd_get_length w r))
                              \<and> closed (snd (rd_get_meta_data w r i))
                              \<and> closed (rd_iter_data w r)
                              \<and> closed (snd (rd_next w r))))"

section \<open>\<^verbatim>\<open>viewer.py\<close>: the image index and the pipelines of \<^verbatim>\<open>Viewer\<close>\<close>

text \<open>
  The reader a viewer shows is any indexable sequence \<open>'seq\<close> of images \<open>'img\<close>: \<open>seq_len\<close> is
  \<^verbatim>\<open>len(reader)\<close>, \<open>seq_getitem\<close> is \<^verbatim>\<open>reader[i]\<close> (with the reader afterwards), and
  \<open>pipeline f s\<close> is \<^verbatim>\<open>pipeline(f)(s)\<close> of the slicerator package.  All three are given from
  outside.  A function of a pipeline may raise.
\<close>

type_synonym 'img func = "'img \<Rightarrow> exn + 'img"

record ('seq, 'img) seq_ops =
  seq_len :: "'seq \<Rightarrow> int"
  seq_getitem :: "'seq \<Rightarrow> int \<Rightarrow> (exn + 'img) \<times> 'seq"
  pipeline :: "'img func \<Rightarrow> 'seq \<Rightarrow> 'seq"

text \<open>
  The attributes of a \<^verbatim>\<open>Viewer\<close> that \<^verbatim>\<open>update_index\<close>, \<^verbatim>\<open>update_image\<close> and \<^verbatim>\<open>show\<close> read
  or write.  \<open>priv_img\<close> is \<^verbatim>\<open>_img\<close>, the displayed image that the \<^verbatim>\<open>image\<close> property stores;
  \<open>slider_val\<close> is \<^verbatim>\<open>slider.val\<close>.  The Qt windows and the matplotlib canvas are left out.
\<close>

record ('seq, 'img) Viewer =
  pipelines :: "'img func list"
  index :: int
  viewer_reader :: 'seq
  original_image :: 'img
  priv_img :: 'img
  slider_val :: int

text \<open>
  \<^verbatim>\<open>
  def update_image(self):
      image = self.original_image.copy()
      for func in self.pipelines:
          image = func(image)
      self.image = image
  \<close>
  \<open>run_pipelines\<close> is the loop; a copy of an image is the same value.
\<close>

fun run_pipelines :: "'img func list \<Rightarrow> 'img \<Rightarrow> exn + 'img" where
  "run_pipelines [] img = Inr img"
| "run_pipelines (func # rest) img =
     (case func img of Inl e \<Rightarrow> Inl e | Inr img' \<Rightarrow> run_pipelines rest img')"

definition update_image ::
  "('seq, 'img) Viewer \<Rightarrow> exn option \<times> ('seq, 'img) Viewer" where
  "update_image self =
     (case run_pipelines (pipelines self) (original_image self) of
        Inl e \<Rightarrow> (Some e, self)
      | Inr img \<Rightarrow> (None, self\<lparr>priv_img := img\<rparr>))"

text \<open>
  \<^verbatim>\<open>
  def update_index(self, index):
      index = min(max(int(round(index)), 0), len(self.reader) - 1)
      if index == self.index:
          return

      self.index = index
      self.slider.val = index
      image = self.reader[self.index]
      self.original_image = image
      self.update_image()
  \<close>
  The argument is an integer here, and \<^verbatim>\<open>int(round(index))\<close> of an integer is that integer.
\<close>

definition update_index ::
  "('seq, 'img) seq_ops \<Rightarrow> ('seq, 'img) Viewer \<Rightarrow> int \<Rightarrow> exn option \<times> ('seq, 'img) Viewer"
  where
  "update_index ops self index0 =
     (let index1 = min (max index0 0) (seq_len ops (viewer_reader self) - 1) in
      if index1 = index self then (None, self)
      else
        (let self1 = self\<lparr>index := index1, slider_val := index1\<rparr> in
         case seq_getitem ops (viewer_reader self1) (index self1) of
           (Inl e, rd') \<Rightarrow> (Some e, self1\<lparr>viewer_reader := rd'\<rparr>)
         | (Inr img, rd') \<Rightarrow>
             update_image (self1\<lparr>viewer_reader := rd', original_image := img\<rparr>)))"

text \<open>
  \<^verbatim>\<open>
  result = [None] * (len(self.pipelines) + 1)
  result[0] = self.reader
  for i, func in enumerate(self.pipelines):
      result[i + 1] = pipeline(func)(result[i])

  return result
  \<close>
  (the end of \<^verbatim>\<open>show\<close>).  \<open>show_loop\<close> is the loop over \<^verbatim>\<open>enumerate\<close>; a slot of the list
  holds \<open>None\<close> until it is assigned, and the loop reads only slots assigned before.
\<close>

definition enumerate_from0 :: "'a list \<Rightarrow> (nat \<times> 'a) list" where
  "enumerate_from0 xs = zip [0 ..< length xs] xs"

fun show_loop ::
  "('seq, 'img) seq_ops \<Rightarrow> (nat \<times> 'img func) list \<Rightarrow> 'seq option list \<Rightarrow> 'seq option list"
  where
  "show_loop ops [] result = result"
| "show_loop ops ((i, func) # rest) result =
     show_loop ops rest (result[i + 1 := map_option (pipeline ops func) (result ! i)])"

definition show_result :: "('seq, 'img) seq_ops \<Rightarrow> ('seq, 'img) Viewer \<Rightarrow> 'seq option list" where
  "show_result ops self =
     show_loop ops (enumerate_from0 (pipelines self))
       ((replicate (length (pipelines self) + 1) None)[0 := Some (viewer_reader self)])"

text \<open>
  To state what the pipelines compute: \<open>pure_func A\<close> is a transform that never raises;
  \<open>chain ops s fs\<close> is the sequence \<open>s\<close> followed by the sequences obtained by wrapping it in
  the functions \<open>fs\<close> one after the other; \<open>pipeline_law\<close> is the contract of slicerator's
  \<^verbatim>\<open>pipeline\<close>: item \<open>i\<close> of \<^verbatim>\<open>pipeline(f)(s)\<close> is \<open>f\<close> applied to item \<open>i\<close> of \<open>s\<close>.
\<close>

definition pure_func :: "('img \<Rightarrow> 'img) \<Rightarrow> 'img func" where
  "pure_func A = (\<lambda>x. Inr (A x))"

fun chain :: "('seq, 'img) seq_ops \<Rightarrow> 'seq \<Rightarrow> 'img func list \<Rightarrow> 'seq list" where
  "chain ops s [] = [s]"
| "chain ops s (f # fs) = s # chain ops (pipeline ops f s) fs"

definition pipeline_law :: "('seq, 'img) seq_ops \<Rightarrow> bool" where
  "pipeline_law ops =
     (\<forall>f s i. fst (seq_getitem ops (pipeline ops f s) i)
                = (case fst (seq_getitem ops s i) of Inl e \<Rightarrow> Inl e | Inr x \<Rightarrow> f x))"

section \<open>Observing the calls a program makes\<close>

text \<open>
  To say how often and with which arguments the code calls its collaborators, a collaborator
  is wrapped so that it keeps a log: the wrapped reader's state is the reader's state with the
  list of the calls made so far, oldest first.  The code under study is the same; only the
  collaborator it is run with changes.
\<close>

datatype call =
    Call_get_reader string
  | Call_get_length
  | Call_get_data int
  | Call_get_meta_data "int option"
  | Call_iter_data
  | Call_next
  | Call_close

definition logged :: "('r, 's) env \<Rightarrow> ('r \<times> call list, 's) env" where
  "logged w =
     \<lparr>glob = glob w,
      path_exists = path_exists w,
      ImageSequence = ImageSequence w,
      get_reader = (\<lambda>f kw. case get_reader w f kw of
                       Inl e \<Rightarrow> Inl e | Inr r \<Rightarrow> Inr (r, [Call_get_reader f])),
      rd_get_length = (\<lambda>(r, log). case rd_get_length w r of
                       (res, r') \<Rightarrow> (res, (r', log @ [Call_get_length]))),
      rd_get_data = (\<lambda>(r, log) i. case rd_get_data w r i of
                       (res, r') \<Rightarrow> (res, (r', log @ [Call_get_data i]))),
      rd_get_meta_data = (\<lambda>(r, log) i. case rd_get_meta_data w r i of
                       (res, r') \<Rightarrow> (res, (r', log @ [Call_get_meta_data i]))),
      rd_iter_data = (\<lambda>(r, log). (rd_iter_data w r, log @ [Call_iter_data])),
      rd_next = (\<lambda>(r, log). case rd_next w r of
                       (res, r') \<Rightarrow> (res, (r', log @ [Call_next]))),
      rd_close = (\<lambda>(r, log). case rd_close w r of
                       (res, r') \<Rightarrow> (res, (r', log @ [Call_close]))),
      maxsize = maxsize w,
      pep479 = pep479 w\<rparr>"

text \<open>
  An \<^verbatim>\<open>ImageIOReader\<close> with another reader object in it, its other attributes unchanged;
  the log of an \<^verbatim>\<open>ImageIOReader\<close> over a wrapped reader, and the same object over the bare
  reader.
\<close>

definition with_reader :: "'r ImageIOReader \<Rightarrow> 'q \<Rightarrow> 'q ImageIOReader" where
  "with_reader self r =
     \<lparr>reader = r, filename = filename self, priv_len = priv_len self,
      priv_shape = priv_shape self, priv_dtype = priv_dtype self\<rparr>"

definition calls_of :: "('r \<times> call list) ImageIOReader \<Rightarrow> call list" where
  "calls_of self = snd (reader self)"

definition bare :: "('r \<times> call list) ImageIOReader \<Rightarrow> 'r ImageIOReader" where
  "bare self = with_reader self (fst (reader self))"

text \<open>The same for the reader of a viewer: the log is the list of the indices read.\<close>

definition logged_seq :: "('seq, 'img) seq_ops \<Rightarrow> ('seq \<times> int list, 'img) seq_ops" where
  "logged_seq ops =
     \<lparr>seq_len = (\<lambda>(s, log). seq_len ops s),
      seq_getitem = (\<lambda>(s, log) i. case seq_getitem ops s i of
                       (res, s') \<Rightarrow> (res, (s', log @ [i]))),
      pipeline = (\<lambda>f (s, log). (pipeline ops f s, log))\<rparr>"

section \<open>A stub backend with three frames\<close>

text \<open>
  A small concrete world to run the code in.  Its reader holds three 2 by 2 frames in memory
  and indexes them as a Python list does (a negative index counts from the end); its state is
  the position of the iterator; \<^verbatim>\<open>close\<close> has nothing to release and does nothing.  The file
  system holds \<^verbatim>\<open>seq.stub\<close>, \<^verbatim>\<open>img1.png\<close> and \<^verbatim>\<open>img2.png\<close>; \<^verbatim>\<open>get_reader\<close> opens
  \<^verbatim>\<open>seq.stub\<close> and the camera \<^verbatim>\<open><video0>\<close>, which is no file.
\<close>

definition stub_frames :: "Array list" where
  "stub_frames =
     [\<lparr>arr = \<lparr>shape = [2, 2], dtype = ''uint8'', pixels = [10, 11, 12, 13]\<rparr>,
       meta = [(''t'', ''0.0'')]\<rparr>,
      \<lparr>arr = \<lparr>shape = [2, 2], dtype = ''uint8'', pixels = [20, 21, 22, 23]\<rparr>,
       meta = [(''t'', ''0.1'')]\<rparr>,
      \<lparr>arr = \<lparr>shape = [2, 2], dtype = ''uint8'', pixels = [30, 31, 32, 33]\<rparr>,
       meta = [(''t'', ''0.2'')]\<rparr>]"

definition list_getitem :: "'a list \<Rightarrow> int \<Rightarrow> exn + 'a" where
  "list_getitem xs i =
     (if 0 \<le> i \<and> i < int (length xs) then Inr (xs ! nat i)
      else if - int (length xs) \<le> i \<and> i < 0 then Inr (xs ! nat (int (length xs) + i))
      else Inl IndexError)"

definition stub_glob :: "string \<Rightarrow> string list" where
  "stub_glob p =
     (if p = ''seq.stub'' then [''seq.stub'']
      else if p = ''img*.png'' then [''img1.png'', ''img2.png'']
      else [])"

definition stub_env :: "(nat, string list) env" where
  "stub_env =
     \<lparr>glob = stub_glob,
      path_exists = (\<lambda>p. p = ''seq.stub'' \<or> p = ''img1.png'' \<or> p = ''img2.png''),
      ImageSequence = (\<lambda>p kw. Inr (stub_glob p)),
      get_reader = (\<lambda>p kw. if p = ''seq.stub'' \<or> p = ''<video0>'' then Inr 0
                             else Inl (Raised ''No such file'')),
      rd_get_length = (\<lambda>r. (Inr 3, r)),
      rd_get_data = (\<lambda>r i. (list_getitem stub_frames i, r)),
      rd_get_meta_data = (\<lambda>r i. (Inr [], r)),
      rd_iter_data = (\<lambda>r. 0),
      rd_next = (\<lambda>r. if r < 3 then (Inr (stub_frames ! r), Suc r)
                       else (Inl StopIteration, r)),
      rd_close = (\<lambda>r. (Inr (), r)),
      maxsize = 9223372036854775807,
      pep479 = True\<rparr>"

text \<open>
  A stand-in for \<^verbatim>\<open>str.lower\<close> to run \<open>can_read\<close> with: it lowers the ASCII letters and
  one character beyond ASCII, the Kelvin sign (U+212A, in UTF-8 the bytes E2 84 AA), which
  Python lowers to the letter k.
\<close>

fun fold_kelvin :: "string \<Rightarrow> string" where
  "fold_kelvin (a # b # c # s) =
     (if a = CHR 0xE2 \<and> b = CHR 0x84 \<and> c = CHR 0xAA then CHR ''k'' # fold_kelvin s
      else a # fold_kelvin (b # c # s))"
| "fold_kelvin s = s"

definition stub_lower :: "string \<Rightarrow> string" where
  "stub_lower s = ascii_lower (fold_kelvin s)"

text \<open>
  A second stub, whose reader refuses to work once it is closed, as an imageio reader does:
  its state is whether it has been closed.
\<close>

definition closing_env :: "(bool, string list) env" where
  "closing_env =
     \<lparr>glob = stub_glob,
      path_exists = (\<lambda>p. p = ''seq.stub'' \<or> p = ''img1.png'' \<or> p = ''img2.png''),
      ImageSequence = (\<lambda>p kw. Inr (stub_glob p)),
      get_reader = (\<lambda>p kw. if p = ''seq.stub'' then Inr False
                             else Inl (Raised ''No such file'')),
      rd_get_length = (\<lambda>c. (Inr 3, c)),
      rd_get_data = (\<lambda>c i. if c
                             then (Inl (RuntimeError ''I/O operation on closed Reader.''), c)
                             else (list_getitem stub_frames i, c)),
      rd_get_meta_data = (\<lambda>c i. (Inr [], c)),
      rd_iter_data = (\<lambda>c. c),
      rd_next = (\<lambda>c. (Inl StopIteration, c)),
      rd_close = (\<lambda>c. (Inr (), True)),
      maxsize = 9223372036854775807,
      pep479 = True\<rparr>"

text \<open>
  A sequence for a viewer: a list of items, each an image (an integer here) or the exception
  that reading it raises, indexed as a Python list; \<^verbatim>\<open>pipeline(f)\<close> applies \<open>f\<close> to every
  image of it.
\<close>

definition list_ops :: "((exn + int) list, int) seq_ops" where
  "list_ops =
     \<lparr>seq_len = (\<lambda>s. int (length s)),
      seq_getitem = (\<lambda>s i. (case list_getitem s i of Inl e \<Rightarrow> Inl e | Inr x \<Rightarrow> x, s)),
      pipeline = (\<lambda>f s. map (\<lambda>x. case x of Inl e \<Rightarrow> Inl e | Inr y \<Rightarrow> f y) s)\<rparr>"

section \<open>Theorems\<close>

subsection \<open>Placeholders of missing libraries\<close>

lemma not_available_raises:
  "not_available req args kw = Inl (ImportError (''This reader requires '' @ req @ ''.''))"
  by (simp add: not_available_def)

lemma binding_missing:
  "\<not> library_present l b \<Longrightarrow> binding l c b = not_available (dependency b)"
  by (cases b)
     (simp_all add: Video_def TiffStack_tifffile_def TiffStack_libtiff_def TiffStack_pil_def
        TiffStack_def Bioformats_def ND2_Reader_def)

lemma dependency_in_message:
  "sublist req (''This reader requires '' @ req @ ''.'')"
  by (rule sublist_appendI)

text \<open>
  Claim C4.  For each of the seven reader names of \<^verbatim>\<open>api.py\<close> whose library is missing at
  import time, the name is bound to a callable that, for every positional argument list and
  every keyword arguments, raises ImportError (the spec's BackendUnavailable); the message is
  \<open>This reader requires <dependency>.\<close>, so it contains the dependency's name; and the call
  returns no reader.
\<close>

theorem missing_backend_always_fails:
  assumes "\<not> library_present l b"
  shows "binding l c b args kw
           = Inl (ImportError (''This reader requires '' @ dependency b @ ''.''))
         \<and> sublist (dependency b) (''This reader requires '' @ dependency b @ ''.'')
         \<and> (\<forall>rd. binding l c b args kw \<noteq> Inr rd)"
proof -
  have eq: "binding l c b args kw
              = Inl (ImportError (''This reader requires '' @ dependency b @ ''.''))"
    using assms by (simp add: binding_missing not_available_raises)
  moreover have "sublist (dependency b) (''This reader requires '' @ dependency b @ ''.'')"
    by (rule dependency_in_message)
  moreover have "\<forall>rd. binding l c b args kw \<noteq> Inr rd"
    by (simp add: eq)
  ultimately show ?thesis by blast
qed

theorem missing_backend_always_fails_witness:
  "\<not> library_present \<lparr>pyav_ok = True, tifffile_available = False, libtiff_available = False,
              PIL_available = False, bioformats_ok = True, nd2_ok = True\<rparr> N_TiffStack
   \<and> binding \<lparr>pyav_ok = True, tifffile_available = False, libtiff_available = False,
              PIL_available = False, bioformats_ok = True, nd2_ok = True\<rparr>
        \<lparr>PyAVVideoReader = (\<lambda>a k. Inr (0::nat)), TiffStack_tifffile_class = (\<lambda>a k. Inr 1),
         TiffStack_libtiff_class = (\<lambda>a k. Inr 2), TiffStack_pil_class = (\<lambda>a k. Inr 3),
         BioformatsReader = (\<lambda>a k. Inr 4), ND2_Reader_class = (\<lambda>a k. Inr 5)\<rparr>
        N_TiffStack [''stack.tif''] [(''process_func'', ''None'')]
       = Inl (ImportError ''This reader requires tifffile, libtiff, or PIL/Pillow.'')
   \<and> sublist ''tifffile, libtiff, or PIL/Pillow''
        ''This reader requires tifffile, libtiff, or PIL/Pillow.''"
  using missing_backend_always_fails
    [of "\<lparr>pyav_ok = True, tifffile_available = False, libtiff_available = False,
              PIL_available = False, bioformats_ok = True, nd2_ok = True\<rparr>" N_TiffStack
        "\<lparr>PyAVVideoReader = (\<lambda>a k. Inr (0::nat)), TiffStack_tifffile_class = (\<lambda>a k. Inr 1),
         TiffStack_libtiff_class = (\<lambda>a k. Inr 2), TiffStack_pil_class = (\<lambda>a k. Inr 3),
         BioformatsReader = (\<lambda>a k. Inr 4), ND2_Reader_class = (\<lambda>a k. Inr 5)\<rparr>"
        "[''stack.tif'']" "[(''process_func'', ''None'')]"]
  by simp

subsection \<open>The stub world, evaluated\<close>

lemma stub_env_simps:
  "glob stub_env = stub_glob"
  "path_exists stub_env p = (p = ''seq.stub'' \<or> p = ''img1.png'' \<or> p = ''img2.png'')"
  "ImageSequence stub_env p kw = Inr (stub_glob p)"
  "get_reader stub_env p kw = (if p = ''seq.stub'' \<or> p = ''<video0>'' then Inr 0
                               else Inl (Raised ''No such file''))"
  "rd_get_length stub_env r = (Inr 3, r)"
  "rd_get_data stub_env r i = (list_getitem stub_frames i, r)"
  "rd_iter_data stub_env r = 0"
  "rd_next stub_env r = (if r < 3 then (Inr (stub_frames ! r), Suc r)
                         else (Inl StopIteration, r))"
  "rd_close stub_env r = (Inr (), r)"
  "maxsize stub_env = 9223372036854775807"
  "pep479 stub_env = True"
  by (simp_all add: stub_env_def)

lemma stub_init:
  "p = ''seq.stub'' \<or> p = ''<video0>'' \<Longrightarrow>
   ImageIOReader_init stub_env p kw =
     Inr \<lparr>reader = 0, filename = p, priv_len = 3,
          priv_shape = Some [2, 2], priv_dtype = Some ''uint8''\<rparr>"
  by (auto simp add: ImageIOReader_init_def get_frame_def stub_env_simps list_getitem_def
        stub_frames_def)

subsection \<open>\<^verbatim>\<open>open\<close>: a collection or a single file\<close>

text \<open>
  Claim C1.  When \<^verbatim>\<open>glob.glob\<close> of the path expression returns more than one file, \<^verbatim>\<open>open\<close>
  returns what the \<^verbatim>\<open>ImageSequence\<close> constructor makes of the expression (or its exception).
  When it returns one file or none, \<^verbatim>\<open>open\<close> returns what the \<^verbatim>\<open>ImageIOReader\<close> constructor
  makes of the expression, which asks imageio's \<^verbatim>\<open>get_reader\<close> for the reader; in that case
  the result is never an image collection.
\<close>

theorem open_dispatch:
  "(1 < length (glob w sequence) \<longrightarrow>
      pims_open w sequence kw = map_sum id Collection (ImageSequence w sequence kw))
   \<and> (length (glob w sequence) \<le> 1 \<longrightarrow>
      pims_open w sequence kw = map_sum id Single (ImageIOReader_init w sequence kw)
      \<and> (\<forall>s. pims_open w sequence kw \<noteq> Inr (Collection s)))"
  by (auto simp: pims_open_def Let_def split: sum.splits)

theorem open_dispatch_witness:
  "1 < length (glob stub_env ''img*.png'')
   \<and> pims_open stub_env ''img*.png'' [] = Inr (Collection [''img1.png'', ''img2.png''])
   \<and> length (glob stub_env ''seq.stub'') \<le> 1
   \<and> pims_open stub_env ''seq.stub'' [] =
       Inr (Single \<lparr>reader = 0, filename = ''seq.stub'', priv_len = 3,
                     priv_shape = Some [2, 2], priv_dtype = Some ''uint8''\<rparr>)"
  using open_dispatch [of stub_env "''img*.png''" "[]"]
        open_dispatch [of stub_env "''seq.stub''" "[]"]
  by (simp add: stub_env_simps stub_glob_def stub_init)

subsection \<open>What a logged world records\<close>

lemma logged_simps:
  "glob (logged w) = glob w"
  "ImageSequence (logged w) = ImageSequence w"
  "get_reader (logged w) f kw =
     (case get_reader w f kw of Inl e \<Rightarrow> Inl e | Inr r \<Rightarrow> Inr (r, [Call_get_reader f]))"
  "rd_get_length (logged w) (r, log) =
     (case rd_get_length w r of (res, r') \<Rightarrow> (res, (r', log @ [Call_get_length])))"
  "rd_get_data (logged w) (r, log) i =
     (case rd_get_data w r i of (res, r') \<Rightarrow> (res, (r', log @ [Call_get_data i])))"
  "rd_iter_data (logged w) (r, log) = (rd_iter_data w r, log @ [Call_iter_data])"
  "rd_next (logged w) (r, log) =
     (case rd_next w r of (res, r') \<Rightarrow> (res, (r', log @ [Call_next])))"
  "rd_close (logged w) (r, log) =
     (case rd_close w r of (res, r') \<Rightarrow> (res, (r', log @ [Call_close])))"
  by (simp_all add: logged_def)

lemma logged_get_frame:
  "get_frame (logged w) self i =
     (case get_frame w (bare self) i of
        (res, self') \<Rightarrow>
          (res, with_reader self' (reader self', calls_of self @ [Call_get_data i])))"
  by (cases "reader self")
     (simp add: get_frame_def logged_simps bare_def with_reader_def calls_of_def
        split: prod.splits sum.splits)

lemma logged_init:
  "ImageIOReader_init (logged w) f kw =
     (case ImageIOReader_init w f kw of
        Inl e \<Rightarrow> Inl e
      | Inr rd \<Rightarrow>
          Inr (with_reader rd
                 (reader rd, [Call_get_reader f, Call_get_length, Call_get_data 0])))"
  by (simp add: ImageIOReader_init_def logged_simps get_frame_def with_reader_def
        split: sum.splits prod.splits)

subsection \<open>\<^verbatim>\<open>open\<close> on an expression that matches nothing\<close>

text \<open>
  Claim C2, as the specification states it: \<^verbatim>\<open>open\<close> fails with NoMatchingFiles, without
  reaching a backend, when the expression matches no file and no file of that name exists.
  The code has no such check.  In the stub world \<^verbatim>\<open><video0>\<close> matches no file and is no
  file, and \<^verbatim>\<open>open\<close> hands it to \<^verbatim>\<open>get_reader\<close> and returns the reader it gets.
\<close>

theorem open_no_match_counterexample:
  "glob stub_env ''<video0>'' = []
   \<and> \<not> path_exists stub_env ''<video0>''
   \<and> pims_open stub_env ''<video0>'' [] =
       Inr (Single \<lparr>reader = 0, filename = ''<video0>'', priv_len = 3,
                     priv_shape = Some [2, 2], priv_dtype = Some ''uint8''\<rparr>)"
  by (simp add: pims_open_def stub_env_simps stub_glob_def stub_init)

text \<open>
  Claim C2, amended.  When \<^verbatim>\<open>glob.glob\<close> of the expression returns no file, \<^verbatim>\<open>open\<close> does
  what it does for a single match, whether or not a file of that name exists: it returns what
  the \<^verbatim>\<open>ImageIOReader\<close> constructor makes of the expression.  So an exception of
  \<^verbatim>\<open>get_reader\<close> is the exception of \<^verbatim>\<open>open\<close>, unchanged, and when \<^verbatim>\<open>open\<close> succeeds the
  backend has been called three times: \<^verbatim>\<open>get_reader\<close> on the expression, \<^verbatim>\<open>get_length\<close>
  and \<^verbatim>\<open>get_data(0)\<close>.
\<close>

theorem open_no_match:
  assumes "glob w sequence = []"
  shows "pims_open w sequence kw = map_sum id Single (ImageIOReader_init w sequence kw)
         \<and> (\<forall>e. get_reader w sequence kw = Inl e \<longrightarrow> pims_open w sequence kw = Inl e)
         \<and> (\<forall>rd. pims_open (logged w) sequence kw = Inr (Single rd) \<longrightarrow>
               calls_of rd = [Call_get_reader sequence, Call_get_length, Call_get_data 0])"
proof -
  have a: "pims_open w sequence kw = map_sum id Single (ImageIOReader_init w sequence kw)"
    using assms by (simp add: pims_open_def split: sum.splits)
  have b: "\<forall>e. get_reader w sequence kw = Inl e \<longrightarrow> pims_open w sequence kw = Inl e"
    by (simp add: a ImageIOReader_init_def)
  have c: "\<forall>rd. pims_open (logged w) sequence kw = Inr (Single rd) \<longrightarrow>
               calls_of rd = [Call_get_reader sequence, Call_get_length, Call_get_data 0]"
    using assms
    by (auto simp: pims_open_def logged_simps logged_init calls_of_def with_reader_def
          split: sum.splits)
  from a b c show ?thesis by blast
qed

theorem open_no_match_witness:
  "glob stub_env ''<video0>'' = []
   \<and> pims_open stub_env ''<video0>'' [] =
       map_sum id Single (ImageIOReader_init stub_env ''<video0>'' [])
   \<and> glob stub_env ''missing.tif'' = []
   \<and> get_reader stub_env ''missing.tif'' [] = Inl (Raised ''No such file'')
   \<and> pims_open stub_env ''missing.tif'' [] = Inl (Raised ''No such file'')"
  using open_no_match [of stub_env "''<video0>''" "[]"]
        open_no_match [of stub_env "''missing.tif''" "[]"]
  by (simp add: stub_env_simps stub_glob_def ImageIOReader_init_def)

subsection \<open>\<^verbatim>\<open>PimsFormat._can_read\<close> and \<^verbatim>\<open>_can_write\<close>\<close>

lemma distinct_letters: "distinct (map fst letter_pairs)"
  by (simp add: letter_pairs_def)

lemma ascii_lower_char_eq:
  assumes "d \<notin> fst ` set letter_pairs"
  shows "ascii_lower_char c = d \<longleftrightarrow> same_letter c d"
proof (cases "map_of letter_pairs c")
  case None
  then have "c \<notin> fst ` set letter_pairs"
    by (simp add: map_of_eq_None_iff)
  then have "(c, d) \<notin> set letter_pairs"
    by (metis fst_conv image_eqI)
  moreover from assms have "(d, c) \<notin> set letter_pairs"
    by (metis fst_conv image_eqI)
  ultimately show ?thesis
    using None by (simp add: ascii_lower_char_def same_letter_def)
next
  case (Some l)
  then have in_l: "(c, l) \<in> set letter_pairs"
    by (rule map_of_SomeD)
  then have cu: "c \<in> fst ` set letter_pairs"
    by (metis fst_conv image_eqI)
  with assms have ne: "c \<noteq> d" by blast
  from assms have nd: "(d, c) \<notin> set letter_pairs"
    by (metis fst_conv image_eqI)
  have "(c, d) \<in> set letter_pairs \<longleftrightarrow> map_of letter_pairs c = Some d"
    using distinct_letters by (simp add: map_of_eq_Some_iff)
  with Some ne nd show ?thesis
    by (auto simp: ascii_lower_char_def same_letter_def)
qed

lemma suffix_drop_iff:
  "suffix e s \<longleftrightarrow> length e \<le> length s \<and> drop (length s - length e) s = e"
proof
  assume "suffix e s"
  then obtain p where "s = p @ e" by (auto simp: suffix_def)
  then show "length e \<le> length s \<and> drop (length s - length e) s = e" by simp
next
  assume "length e \<le> length s \<and> drop (length s - length e) s = e"
  then have "s = take (length s - length e) s @ e"
    by (metis append_take_drop_id)
  then show "suffix e s" by (metis suffixI)
qed

lemma has_extension_suffix:
  assumes "no_upper e"
  shows "has_extension fname e \<longleftrightarrow> suffix e (ascii_lower fname)"
proof -
  let ?xs = "drop (length fname - length e) fname"
  have "map ascii_lower_char ?xs = e \<longleftrightarrow> list_all2 same_letter ?xs e"
  proof -
    have "map ascii_lower_char ?xs = e \<longleftrightarrow> list_all2 (\<lambda>c d. ascii_lower_char c = d) ?xs e"
      by (simp add: list_all2_conv_all_nth list_eq_iff_nth_eq)
    also have "\<dots> \<longleftrightarrow> list_all2 same_letter ?xs e"
    proof -
      have "\<And>i. i < length e \<Longrightarrow> e ! i \<notin> fst ` set letter_pairs"
        using assms by (simp add: no_upper_def list_all_length)
      then show ?thesis
        by (auto simp: list_all2_conv_all_nth ascii_lower_char_eq)
    qed
    finally show ?thesis .
  qed
  then show ?thesis
    by (simp add: has_extension_def suffix_drop_iff ascii_lower_def drop_map)
qed

lemma can_read_total:
  "2 \<le> length (req_mode request) \<Longrightarrow>
   \<exists>r. can_read L self request = Inr r \<and>
     (truthy r \<longleftrightarrow>
        (\<exists>e \<in> set (extensions self). suffix e (L (req_filename request)))
        \<and> (req_mode request ! 1 \<in> set (modes self) \<or> req_mode request ! 1 = CHR ''?''))"
  by (auto simp: can_read_def truthy_def endswith_def)

lemma can_read_short_mode:
  "length (req_mode request) < 2 \<Longrightarrow> can_read L self request = Inl IndexError"
  by (simp add: can_read_def)

text \<open>
  Claim C3.  For every format, every file name and every request mode of two characters (the
  only modes an imageio request has): \<open>_can_read\<close> returns, and its result is true exactly
  when the file name, lower-cased by \<^verbatim>\<open>str.lower\<close>, ends with one of the format's extensions
  and the kind of data asked for is one of the format's modes or is \<^verbatim>\<open>?\<close>.  For a file name
  of ASCII characters and extensions without capital letters (as the data model keeps them),
  that is: exactly when the file name has one of the format's extensions, compared letter by
  letter with the case of letters ignored, and the mode is one of the format's or \<^verbatim>\<open>?\<close>.
  \<open>_can_write\<close> is false.
\<close>

theorem can_read_iff:
  assumes "2 \<le> length (req_mode request)"
  shows "(\<exists>r. can_read str_lower self request = Inr r
           \<and> (truthy r \<longleftrightarrow>
                (\<exists>e \<in> set (extensions self). suffix e (str_lower (req_filename request)))
                \<and> (req_mode request ! 1 \<in> set (modes self)
                    \<or> req_mode request ! 1 = CHR ''?''))
           \<and> (lower_on_ascii str_lower \<longrightarrow> is_ascii (req_filename request) \<longrightarrow>
                (\<forall>e \<in> set (extensions self). no_upper e) \<longrightarrow>
                (truthy r \<longleftrightarrow>
                   (\<exists>e \<in> set (extensions self). has_extension (req_filename request) e)
                   \<and> (req_mode request ! 1 \<in> set (modes self)
                       \<or> req_mode request ! 1 = CHR ''?''))))
         \<and> can_write self request = False"
proof -
  from can_read_total [OF assms, of str_lower self] obtain r where
    r: "can_read str_lower self request = Inr r"
    and t: "truthy r \<longleftrightarrow>
                (\<exists>e \<in> set (extensions self). suffix e (str_lower (req_filename request)))
                \<and> (req_mode request ! 1 \<in> set (modes self)
                    \<or> req_mode request ! 1 = CHR ''?'')"
    by blast
  have a: "lower_on_ascii str_lower \<longrightarrow> is_ascii (req_filename request) \<longrightarrow>
                (\<forall>e \<in> set (extensions self). no_upper e) \<longrightarrow>
                (truthy r \<longleftrightarrow>
                   (\<exists>e \<in> set (extensions self). has_extension (req_filename request) e)
                   \<and> (req_mode request ! 1 \<in> set (modes self)
                       \<or> req_mode request ! 1 = CHR ''?''))"
  proof (intro impI)
    assume l: "lower_on_ascii str_lower" and f: "is_ascii (req_filename request)"
      and e: "\<forall>e \<in> set (extensions self). no_upper e"
    from l f have "str_lower (req_filename request) = ascii_lower (req_filename request)"
      by (simp add: lower_on_ascii_def)
    with e have "(\<exists>e \<in> set (extensions self). suffix e (str_lower (req_filename request)))
      \<longleftrightarrow> (\<exists>e \<in> set (extensions self). has_extension (req_filename request) e)"
      by (auto simp: has_extension_suffix)
    with t show "truthy r \<longleftrightarrow>
                   (\<exists>e \<in> set (extensions self). has_extension (req_filename request) e)
                   \<and> (req_mode request ! 1 \<in> set (modes self)
                       \<or> req_mode request ! 1 = CHR ''?'')"
      by simp
  qed
  from r t a show ?thesis
    by (simp add: can_write_def)
qed

lemma fold_kelvin_ascii: "is_ascii s \<Longrightarrow> fold_kelvin s = s"
  by (induction s rule: fold_kelvin.induct) (auto simp: is_ascii_def)

lemma lower_on_ascii_stub: "lower_on_ascii stub_lower"
  by (simp add: lower_on_ascii_def stub_lower_def fold_kelvin_ascii)

lemma stub_lower_evals:
  "stub_lower ''Stack.TIF'' = ''stack.tif''"
  "stub_lower (''movie.M'' @ [CHR 0xE2, CHR 0x84, CHR 0xAA] @ ''V'') = ''movie.mkv''"
  by code_simp+

lemma witness_facts:
  "is_ascii ''Stack.TIF''"
  "has_extension ''Stack.TIF'' ''.tif''"
  "no_upper ''.tif''"
  "no_upper ''.tiff''"
  by code_simp+

theorem can_read_iff_witness:
  "2 \<le> length (req_mode \<lparr>req_filename = ''Stack.TIF'', req_mode = ''r?''\<rparr>)
   \<and> lower_on_ascii stub_lower
   \<and> is_ascii (req_filename \<lparr>req_filename = ''Stack.TIF'', req_mode = ''r?''\<rparr>)
   \<and> list_all no_upper
        (extensions \<lparr>fmt_name = ''Tifffile'', extensions = [''.tif'', ''.tiff''], modes = ''iv''\<rparr>)
   \<and> has_extension ''Stack.TIF'' ''.tif''
   \<and> can_read stub_lower
        \<lparr>fmt_name = ''Tifffile'', extensions = [''.tif'', ''.tiff''], modes = ''iv''\<rparr>
        \<lparr>req_filename = ''Stack.TIF'', req_mode = ''r?''\<rparr> = Inr (Some True)
   \<and> can_read stub_lower
        \<lparr>fmt_name = ''PyAV'', extensions = [''.mkv''], modes = ''iI''\<rparr>
        \<lparr>req_filename = ''movie.M'' @ [CHR 0xE2, CHR 0x84, CHR 0xAA] @ ''V'',
         req_mode = ''rI''\<rparr> = Inr (Some True)
   \<and> can_write \<lparr>fmt_name = ''Tifffile'', extensions = [''.tif'', ''.tiff''], modes = ''iv''\<rparr>
        \<lparr>req_filename = ''Stack.TIF'', req_mode = ''r?''\<rparr> = False"
proof -
  let ?F = "\<lparr>fmt_name = ''Tifffile'', extensions = [''.tif'', ''.tiff''], modes = ''iv''\<rparr>"
  let ?R = "\<lparr>req_filename = ''Stack.TIF'', req_mode = ''r?''\<rparr>"
  let ?G = "\<lparr>fmt_name = ''PyAV'', extensions = [''.mkv''], modes = ''iI''\<rparr>"
  let ?K = "\<lparr>req_filename = ''movie.M'' @ [CHR 0xE2, CHR 0x84, CHR 0xAA] @ ''V'',
             req_mode = ''rI''\<rparr>"
  have m: "2 \<le> length (req_mode ?R)" and mk: "2 \<le> length (req_mode ?K)" by simp_all
  have asc: "is_ascii (req_filename ?R)" by (simp add: witness_facts)
  have ext: "\<forall>e \<in> set (extensions ?F). no_upper e" by (simp add: witness_facts)
  have extl: "list_all no_upper (extensions ?F)" by (simp add: witness_facts)
  have he: "has_extension ''Stack.TIF'' ''.tif''" by (rule witness_facts)
  from can_read_iff [OF m, of stub_lower ?F] obtain r where
    r: "can_read stub_lower ?F ?R = Inr r"
    and t: "lower_on_ascii stub_lower \<longrightarrow> is_ascii (req_filename ?R) \<longrightarrow>
            (\<forall>e \<in> set (extensions ?F). no_upper e) \<longrightarrow>
            (truthy r \<longleftrightarrow>
               (\<exists>e \<in> set (extensions ?F). has_extension (req_filename ?R) e)
               \<and> (req_mode ?R ! 1 \<in> set (modes ?F) \<or> req_mode ?R ! 1 = CHR ''?''))"
    and cw: "can_write ?F ?R = False"
    by blast
  from t lower_on_ascii_stub asc ext
  have "truthy r \<longleftrightarrow>
               (\<exists>e \<in> set (extensions ?F). has_extension (req_filename ?R) e)
               \<and> (req_mode ?R ! 1 \<in> set (modes ?F) \<or> req_mode ?R ! 1 = CHR ''?'')"
    by blast
  with he have "truthy r" by simp
  with r have one: "can_read stub_lower ?F ?R = Inr (Some True)"
    by (simp add: truthy_def)
  from can_read_iff [OF mk, of stub_lower ?G] obtain q where
    q: "can_read stub_lower ?G ?K = Inr q"
    and tq: "truthy q \<longleftrightarrow>
               (\<exists>e \<in> set (extensions ?G). suffix e (stub_lower (req_filename ?K)))
               \<and> (req_mode ?K ! 1 \<in> set (modes ?G) \<or> req_mode ?K ! 1 = CHR ''?'')"
    by blast
  have k: "stub_lower (req_filename ?K) = ''movie.mkv''"
    by (simp only: Request.select_convs stub_lower_evals)
  have sf: "suffix ''.mkv'' ''movie.mkv''"
    by (simp add: suffix_def)
  from tq have "truthy q \<longleftrightarrow>
               (\<exists>e \<in> set (extensions ?G). suffix e ''movie.mkv'')
               \<and> (req_mode ?K ! 1 \<in> set (modes ?G) \<or> req_mode ?K ! 1 = CHR ''?'')"
    by (simp only: k)
  with sf have "truthy q"
    by simp
  with q have two: "can_read stub_lower ?G ?K = Inr (Some True)"
    by (simp add: truthy_def)
  from m lower_on_ascii_stub asc extl he one two cw show ?thesis by (intro conjI)
qed

text \<open>
  For an extension written as a dot and a dot-free rest (\<^verbatim>\<open>.tif\<close>), ending in it is the same
  as having it as the part from the last dot on.
\<close>

lemma suffix_ext_of:
  assumes e: "e = CHR ''.'' # b" and b: "CHR ''.'' \<notin> set b"
  shows "suffix e s \<longleftrightarrow> ext_of s = e"
proof
  assume "suffix e s"
  then obtain p where s: "s = p @ CHR ''.'' # b"
    by (auto simp: suffix_def e)
  have "takeWhile (\<lambda>c. c \<noteq> CHR ''.'') (rev b @ CHR ''.'' # rev p) = rev b"
    using b by (auto simp add: takeWhile_tail)
  then show "ext_of s = e"
    by (simp add: ext_of_def s e)
next
  assume x: "ext_of s = e"
  then have dot: "CHR ''.'' \<in> set s"
    by (auto simp: ext_of_def e split: if_splits)
  with x have tw: "takeWhile (\<lambda>c. c \<noteq> CHR ''.'') (rev s) = rev b"
    by (auto simp: ext_of_def e rev_swap)
  from dot have "dropWhile (\<lambda>c. c \<noteq> CHR ''.'') (rev s) \<noteq> []"
    by (auto simp: dropWhile_eq_Nil_conv)
  then obtain rest where dw: "dropWhile (\<lambda>c. c \<noteq> CHR ''.'') (rev s) = CHR ''.'' # rest"
    using hd_dropWhile [of "\<lambda>c. c \<noteq> CHR ''.''" "rev s"]
    by (cases "dropWhile (\<lambda>c. c \<noteq> CHR ''.'') (rev s)") auto
  have "rev s = rev b @ CHR ''.'' # rest"
    using takeWhile_dropWhile_id [of "\<lambda>c. c \<noteq> CHR ''.''" "rev s"] tw dw by simp
  then have "s = rev rest @ CHR ''.'' # b"
    by (simp add: rev_swap)
  then show "suffix e s"
    by (simp add: suffix_def e)
qed

lemma has_extension_ext_of:
  "no_upper e \<Longrightarrow> e = CHR ''.'' # b \<Longrightarrow> CHR ''.'' \<notin> set b \<Longrightarrow>
   has_extension fname e \<longleftrightarrow> ext_of (ascii_lower fname) = e"
  by (simp add: has_extension_suffix suffix_ext_of)

subsection \<open>The constructor of \<^verbatim>\<open>ImageIOReader\<close> and its cached probe\<close>

lemma use_keeps:
  "priv_shape (apply_use w self u) = priv_shape self"
  "priv_dtype (apply_use w self u) = priv_dtype self"
  "priv_len (apply_use w self u) = priv_len self"
  "filename (apply_use w self u) = filename self"
  by (cases u; simp add: get_frame_def get_metadata_def iter_frames_def close_def Let_def
        split: prod.splits sum.splits)+

lemma lifetime_keeps:
  "priv_shape (lifetime w self us) = priv_shape self"
  "priv_dtype (lifetime w self us) = priv_dtype self"
  "priv_len (lifetime w self us) = priv_len self"
  "filename (lifetime w self us) = filename self"
  unfolding lifetime_def
  by (induction us arbitrary: self; simp add: use_keeps)+

lemma lifetime_props:
  "frame_shape (lifetime w self us) = frame_shape self"
  "pixel_type (lifetime w self us) = pixel_type self"
  "len (lifetime w self us) = len self"
  by (simp_all add: frame_shape_def pixel_type_def len_def lifetime_keeps)

lemma lifetime_snoc: "lifetime w self (us @ [u]) = apply_use w (lifetime w self us) u"
  by (simp add: lifetime_def)

lemma init_success:
  "ImageIOReader_init w f kw = Inr self0 \<Longrightarrow>
   \<exists>r0 n r1 a r2. get_reader w f kw = Inr r0 \<and> rd_get_length w r0 = (Inr n, r1)
      \<and> rd_get_data w r1 0 = (Inr a, r2)
      \<and> self0 = \<lparr>reader = r2, filename = f, priv_len = n,
                  priv_shape = Some (shape (arr a)), priv_dtype = Some (dtype (arr a))\<rparr>"
  by (auto simp: ImageIOReader_init_def get_frame_def split: sum.splits prod.splits)

lemma init_fail_fast:
  "get_reader w f kw = Inr r0 \<Longrightarrow> rd_get_length w r0 = (Inr n, r1) \<Longrightarrow>
   rd_get_data w r1 0 = (Inl e, r2) \<Longrightarrow> ImageIOReader_init w f kw = Inl e"
  by (simp add: ImageIOReader_init_def get_frame_def)

lemma get_frame_result:
  "fst (get_frame w self i) =
     (case fst (rd_get_data w (reader self) i) of
        Inl e \<Rightarrow> Inl e
      | Inr a \<Rightarrow> Inr \<lparr>payload = arr a, frame_no = i, metadata = meta a\<rparr>)"
  by (simp add: get_frame_def split: prod.splits sum.splits)

text \<open>
  Claim C5.  The constructor decodes frame 0 once: when it succeeds, the backend has been
  called exactly with \<^verbatim>\<open>get_reader\<close>, \<^verbatim>\<open>get_length\<close> and \<^verbatim>\<open>get_data(0)\<close>, and when that
  \<^verbatim>\<open>get_data(0)\<close> raises, the constructor raises the same exception.  \<^verbatim>\<open>frame_shape\<close> and
  \<^verbatim>\<open>pixel_type\<close> are the shape and the element type of the array that call returned; they
  keep their values through every later use of the object, and reading them calls the backend
  no more.  When frame 0 of this reader does not change while it is open
  (\<open>frame0_stable\<close>), they are at every later moment the shape and the element type of the
  payload of \<^verbatim>\<open>get_frame(0)\<close>, whenever that succeeds.
\<close>

theorem init_probes_frame0_once:
  "(\<forall>r0 n r1 e r2. get_reader w f kw = Inr r0 \<longrightarrow> rd_get_length w r0 = (Inr n, r1) \<longrightarrow>
        rd_get_data w r1 0 = (Inl e, r2) \<longrightarrow> ImageIOReader_init w f kw = Inl e)
   \<and> (\<forall>self0. ImageIOReader_init w f kw = Inr self0 \<longrightarrow>
        (\<exists>self1. ImageIOReader_init (logged w) f kw = Inr self1 \<and> bare self1 = self0
            \<and> calls_of self1 = [Call_get_reader f, Call_get_length, Call_get_data 0]
            \<and> (\<forall>us. calls_of (lifetime (logged w) self1 (us @ [Use_frame_shape, Use_pixel_type]))
                     = calls_of (lifetime (logged w) self1 us)))
        \<and> (\<exists>r0 n r1 a r2. get_reader w f kw = Inr r0 \<and> rd_get_length w r0 = (Inr n, r1)
              \<and> rd_get_data w r1 0 = (Inr a, r2)
              \<and> frame_shape self0 = Inr (shape (arr a))
              \<and> pixel_type self0 = Inr (dtype (arr a))
              \<and> (frame0_stable w r1 self0 \<longrightarrow>
                   (\<forall>us fr. fst (get_frame w (lifetime w self0 us) 0) = Inr fr \<longrightarrow>
                       frame_shape (lifetime w self0 us) = Inr (shape (payload fr))
                       \<and> pixel_type (lifetime w self0 us) = Inr (dtype (payload fr)))))
        \<and> (\<forall>us. frame_shape (lifetime w self0 us) = frame_shape self0
              \<and> pixel_type (lifetime w self0 us) = pixel_type self0))"
proof (intro conjI allI impI)
  fix r0 n r1 e r2
  assume "get_reader w f kw = Inr r0" "rd_get_length w r0 = (Inr n, r1)"
    "rd_get_data w r1 0 = (Inl e, r2)"
  then show "ImageIOReader_init w f kw = Inl e" by (rule init_fail_fast)
next
  fix self0 assume ok: "ImageIOReader_init w f kw = Inr self0"
  let ?self1 = "with_reader self0 (reader self0, [Call_get_reader f, Call_get_length, Call_get_data 0])"
  have "ImageIOReader_init (logged w) f kw = Inr ?self1"
    by (simp add: logged_init ok)
  moreover have "bare ?self1 = self0"
    by (simp add: bare_def with_reader_def)
  moreover have "calls_of ?self1 = [Call_get_reader f, Call_get_length, Call_get_data 0]"
    by (simp add: calls_of_def with_reader_def)
  moreover have "\<forall>us. calls_of (lifetime (logged w) ?self1 (us @ [Use_frame_shape, Use_pixel_type]))
                     = calls_of (lifetime (logged w) ?self1 us)"
    by (simp add: lifetime_def)
  ultimately show "\<exists>self1. ImageIOReader_init (logged w) f kw = Inr self1 \<and> bare self1 = self0
            \<and> calls_of self1 = [Call_get_reader f, Call_get_length, Call_get_data 0]
            \<and> (\<forall>us. calls_of (lifetime (logged w) self1 (us @ [Use_frame_shape, Use_pixel_type]))
                     = calls_of (lifetime (logged w) self1 us))"
    by blast
next
  fix self0 assume ok: "ImageIOReader_init w f kw = Inr self0"
  from init_success [OF ok] obtain r0 n r1 a r2 where
    gr: "get_reader w f kw = Inr r0" and gl: "rd_get_length w r0 = (Inr n, r1)"
    and probe: "rd_get_data w r1 0 = (Inr a, r2)"
    and sh: "priv_shape self0 = Some (shape (arr a))"
    and dt: "priv_dtype self0 = Some (dtype (arr a))"
    by auto
  have later: "frame0_stable w r1 self0 \<longrightarrow>
                   (\<forall>us fr. fst (get_frame w (lifetime w self0 us) 0) = Inr fr \<longrightarrow>
                       frame_shape (lifetime w self0 us) = Inr (shape (payload fr))
                       \<and> pixel_type (lifetime w self0 us) = Inr (dtype (payload fr)))"
  proof (intro impI allI)
    fix us fr
    assume st: "frame0_stable w r1 self0"
      and fr: "fst (get_frame w (lifetime w self0 us) 0) = Inr fr"
    from fr obtain a' where a': "fst (rd_get_data w (reader (lifetime w self0 us)) 0) = Inr a'"
      and p: "payload fr = arr a'"
      by (auto simp: get_frame_result split: sum.splits)
    from probe have "fst (rd_get_data w r1 0) = Inr a" by simp
    with st a' have "a' = a"
      unfolding frame0_stable_def by blast
    then show "frame_shape (lifetime w self0 us) = Inr (shape (payload fr))
                       \<and> pixel_type (lifetime w self0 us) = Inr (dtype (payload fr))"
      by (simp add: lifetime_keeps frame_shape_def pixel_type_def sh dt p)
  qed
  have "frame_shape self0 = Inr (shape (arr a))" "pixel_type self0 = Inr (dtype (arr a))"
    by (simp_all add: frame_shape_def pixel_type_def sh dt)
  with gr gl probe later
  show "\<exists>r0 n r1 a r2. get_reader w f kw = Inr r0 \<and> rd_get_length w r0 = (Inr n, r1)
              \<and> rd_get_data w r1 0 = (Inr a, r2)
              \<and> frame_shape self0 = Inr (shape (arr a))
              \<and> pixel_type self0 = Inr (dtype (arr a))
              \<and> (frame0_stable w r1 self0 \<longrightarrow>
                   (\<forall>us fr. fst (get_frame w (lifetime w self0 us) 0) = Inr fr \<longrightarrow>
                       frame_shape (lifetime w self0 us) = Inr (shape (payload fr))
                       \<and> pixel_type (lifetime w self0 us) = Inr (dtype (payload fr))))"
    by blast
next
  fix self0 us
  show "frame_shape (lifetime w self0 us) = frame_shape self0"
    by (rule lifetime_props)
  show "pixel_type (lifetime w self0 us) = pixel_type self0"
    by (rule lifetime_props)
qed

lemma frame0_stable_stub: "frame0_stable stub_env r1 self0"
  by (simp add: frame0_stable_def stub_env_simps)

lemma stub_lifetime:
  "lifetime stub_env \<lparr>reader = 0, filename = ''seq.stub'', priv_len = 3,
                        priv_shape = Some [2, 2], priv_dtype = Some ''uint8''\<rparr>
     [Use_get_frame 2, Use_iter, Use_get_metadata]
   = \<lparr>reader = 3, filename = ''seq.stub'', priv_len = 3,
      priv_shape = Some [2, 2], priv_dtype = Some ''uint8''\<rparr>"
  by code_simp

lemma stub_get_frame:
  "fst (get_frame stub_env \<lparr>reader = r, filename = f, priv_len = n,
                            priv_shape = sh, priv_dtype = dt\<rparr> 0)
   = Inr \<lparr>payload = \<lparr>shape = [2, 2], dtype = ''uint8'', pixels = [10, 11, 12, 13]\<rparr>,
          frame_no = 0, metadata = [(''t'', ''0.0'')]\<rparr>"
  by (simp add: get_frame_def stub_env_simps list_getitem_def stub_frames_def)

theorem init_probes_frame0_once_witness:
  "ImageIOReader_init stub_env ''seq.stub'' [] =
     Inr \<lparr>reader = 0, filename = ''seq.stub'', priv_len = 3,
          priv_shape = Some [2, 2], priv_dtype = Some ''uint8''\<rparr>
   \<and> ImageIOReader_init (logged stub_env) ''seq.stub'' [] =
     Inr \<lparr>reader = (0, [Call_get_reader ''seq.stub'', Call_get_length, Call_get_data 0]),
          filename = ''seq.stub'', priv_len = 3,
          priv_shape = Some [2, 2], priv_dtype = Some ''uint8''\<rparr>
   \<and> frame0_stable stub_env 0
        \<lparr>reader = 0, filename = ''seq.stub'', priv_len = 3,
         priv_shape = Some [2, 2], priv_dtype = Some ''uint8''\<rparr>
   \<and> fst (get_frame stub_env
            (lifetime stub_env \<lparr>reader = 0, filename = ''seq.stub'', priv_len = 3,
                                 priv_shape = Some [2, 2], priv_dtype = Some ''uint8''\<rparr>
               [Use_get_frame 2, Use_iter, Use_get_metadata]) 0)
       = Inr \<lparr>payload = \<lparr>shape = [2, 2], dtype = ''uint8'', pixels = [10, 11, 12, 13]\<rparr>,
              frame_no = 0, metadata = [(''t'', ''0.0'')]\<rparr>
   \<and> frame_shape
        (lifetime stub_env \<lparr>reader = 0, filename = ''seq.stub'', priv_len = 3,
                             priv_shape = Some [2, 2], priv_dtype = Some ''uint8''\<rparr>
           [Use_get_frame 2, Use_iter, Use_get_metadata]) = Inr [2, 2]
   \<and> pixel_type
        (lifetime stub_env \<lparr>reader = 0, filename = ''seq.stub'', priv_len = 3,
                             priv_shape = Some [2, 2], priv_dtype = Some ''uint8''\<rparr>
           [Use_get_frame 2, Use_iter, Use_get_metadata]) = Inr ''uint8''"
proof -
  let ?S = "\<lparr>reader = 0::nat, filename = ''seq.stub'', priv_len = 3,
             priv_shape = Some [2, 2], priv_dtype = Some ''uint8''\<rparr>"
  let ?us = "[Use_get_frame 2, Use_iter, Use_get_metadata]"
  let ?f0 = "\<lparr>payload = \<lparr>shape = [2, 2], dtype = ''uint8'', pixels = [10, 11, 12, 13]\<rparr>,
              frame_no = 0, metadata = [(''t'', ''0.0'')]\<rparr>"
  have ini: "ImageIOReader_init stub_env ''seq.stub'' [] = Inr ?S"
    by (simp add: stub_init)
  have inl: "ImageIOReader_init (logged stub_env) ''seq.stub'' [] =
     Inr \<lparr>reader = (0, [Call_get_reader ''seq.stub'', Call_get_length, Call_get_data 0]),
          filename = ''seq.stub'', priv_len = 3,
          priv_shape = Some [2, 2], priv_dtype = Some ''uint8''\<rparr>"
    by (simp add: logged_init ini with_reader_def)
  have st: "frame0_stable stub_env 0 ?S"
    by (rule frame0_stable_stub)
  have gf: "fst (get_frame stub_env (lifetime stub_env ?S ?us) 0) = Inr ?f0"
    by (simp add: stub_lifetime stub_get_frame)
  from init_probes_frame0_once [of stub_env "''seq.stub''" "[]"] ini
  obtain r0 n r1 where gr: "get_reader stub_env ''seq.stub'' [] = Inr r0"
    and gl: "rd_get_length stub_env r0 = (Inr n, r1)"
    and later: "frame0_stable stub_env r1 ?S \<longrightarrow>
                   (\<forall>us fr. fst (get_frame stub_env (lifetime stub_env ?S us) 0) = Inr fr \<longrightarrow>
                       frame_shape (lifetime stub_env ?S us) = Inr (shape (payload fr))
                       \<and> pixel_type (lifetime stub_env ?S us) = Inr (dtype (payload fr)))"
    by blast
  from later frame0_stable_stub gf
  have "frame_shape (lifetime stub_env ?S ?us) = Inr (shape (payload ?f0))
        \<and> pixel_type (lifetime stub_env ?S ?us) = Inr (dtype (payload ?f0))"
    by blast
  then have fs: "frame_shape (lifetime stub_env ?S ?us) = Inr [2, 2]"
    and pt: "pixel_type (lifetime stub_env ?S ?us) = Inr ''uint8''"
    by simp_all
  from ini inl st gf fs pt show ?thesis by (intro conjI)
qed

subsection \<open>Indexing the sequence\<close>

lemma logged_get_frame_calls:
  "calls_of (snd (get_frame (logged w) self i)) = calls_of self @ [Call_get_data i]"
  by (simp add: logged_get_frame calls_of_def with_reader_def split: prod.splits)

text \<open>
  Claim C6, for the indexing modelled from the specification over \<^verbatim>\<open>get_frame\<close> of
  \<^verbatim>\<open>api.py\<close>.  With a backend that serves each of the frames \<open>0, ..., len - 1\<close>: for every
  \<open>i\<close> in \<open>[-len, len)\<close>, \<^verbatim>\<open>get(i)\<close> succeeds, and its \<^verbatim>\<open>frame_no\<close> is \<open>i\<close> counted from
  the start (\<open>i + len\<close> for a negative \<open>i\<close>); \<^verbatim>\<open>get(-1)\<close> returns what \<^verbatim>\<open>get(len - 1)\<close>
  returns, with \<^verbatim>\<open>frame_no = len - 1\<close>; and for every \<open>i\<close> outside \<open>[-len, len)\<close>,
  \<^verbatim>\<open>get(i)\<close> raises IndexError (the specification's IndexOutOfRange) and leaves the object
  as it is.
\<close>

theorem get_wraps_and_checks:
  assumes serves: "\<forall>k. 0 \<le> k \<and> k < len self \<longrightarrow>
                     (\<exists>a. fst (rd_get_data w (reader self) k) = Inr a)"
  shows "(\<forall>i. - len self \<le> i \<and> i < len self \<longrightarrow>
            (\<exists>fr. fst (get w self i) = Inr fr
                  \<and> frame_no fr = (if i < 0 then i + len self else i)))
         \<and> (0 < len self \<longrightarrow>
              fst (get w self (- 1)) = fst (get w self (len self - 1))
              \<and> (\<exists>fr. fst (get w self (- 1)) = Inr fr \<and> frame_no fr = len self - 1))
         \<and> (\<forall>i. i < - len self \<or> len self \<le> i \<longrightarrow>
              get w self i = (Inl IndexError, self))"
proof (intro conjI allI impI)
  fix i assume i: "- len self \<le> i \<and> i < len self"
  let ?k = "if i < 0 then i + len self else i"
  from i have k: "0 \<le> ?k \<and> ?k < len self" by auto
  with serves obtain a where a: "fst (rd_get_data w (reader self) ?k) = Inr a" by blast
  have "fst (get w self i) = fst (get_frame w self ?k)"
    using i by (simp add: get_def)
  with a have "fst (get w self i) = Inr \<lparr>payload = arr a, frame_no = ?k, metadata = meta a\<rparr>"
    by (simp add: get_frame_result)
  then show "\<exists>fr. fst (get w self i) = Inr fr \<and> frame_no fr = ?k"
    by simp
next
  assume pos: "0 < len self"
  then show same: "fst (get w self (- 1)) = fst (get w self (len self - 1))"
    by (simp add: get_def)
  from pos serves obtain a where a: "fst (rd_get_data w (reader self) (len self - 1)) = Inr a"
    by (metis diff_ge_0_iff_ge zle_diff1_eq less_le_not_le linorder_not_le order_refl)
  from pos have "fst (get w self (- 1)) = fst (get_frame w self (len self - 1))"
    by (simp add: get_def)
  with a have "fst (get w self (- 1))
                 = Inr \<lparr>payload = arr a, frame_no = len self - 1, metadata = meta a\<rparr>"
    by (simp add: get_frame_result)
  then show "\<exists>fr. fst (get w self (- 1)) = Inr fr \<and> frame_no fr = len self - 1"
    by simp
next
  fix i assume "i < - len self \<or> len self \<le> i"
  then show "get w self i = (Inl IndexError, self)"
    by (auto simp: get_def)
qed

theorem get_wraps_and_checks_witness:
  "list_all (\<lambda>k. \<exists>a. fst (rd_get_data stub_env (reader \<lparr>reader = 0::nat,
        filename = ''seq.stub'', priv_len = 3, priv_shape = Some [2, 2],
        priv_dtype = Some ''uint8''\<rparr>) k) = Inr a) [0, 1, 2]
   \<and> fst (get stub_env \<lparr>reader = 0, filename = ''seq.stub'', priv_len = 3,
                          priv_shape = Some [2, 2], priv_dtype = Some ''uint8''\<rparr> (- 1))
       = Inr \<lparr>payload = \<lparr>shape = [2, 2], dtype = ''uint8'', pixels = [30, 31, 32, 33]\<rparr>,
              frame_no = 2, metadata = [(''t'', ''0.2'')]\<rparr>
   \<and> fst (get stub_env \<lparr>reader = 0, filename = ''seq.stub'', priv_len = 3,
                          priv_shape = Some [2, 2], priv_dtype = Some ''uint8''\<rparr> 2)
       = Inr \<lparr>payload = \<lparr>shape = [2, 2], dtype = ''uint8'', pixels = [30, 31, 32, 33]\<rparr>,
              frame_no = 2, metadata = [(''t'', ''0.2'')]\<rparr>
   \<and> fst (get stub_env \<lparr>reader = 0, filename = ''seq.stub'', priv_len = 3,
                          priv_shape = Some [2, 2], priv_dtype = Some ''uint8''\<rparr> 3)
       = Inl IndexError
   \<and> fst (get stub_env \<lparr>reader = 0, filename = ''seq.stub'', priv_len = 3,
                          priv_shape = Some [2, 2], priv_dtype = Some ''uint8''\<rparr> (- 4))
       = Inl IndexError"
proof -
  let ?S = "\<lparr>reader = 0::nat, filename = ''seq.stub'', priv_len = 3,
             priv_shape = Some [2, 2], priv_dtype = Some ''uint8''\<rparr>"
  have serves: "\<forall>k. 0 \<le> k \<and> k < len ?S \<longrightarrow>
                     (\<exists>a. fst (rd_get_data stub_env (reader ?S) k) = Inr a)"
    by (simp add: len_def stub_env_simps list_getitem_def stub_frames_def)
  note t = get_wraps_and_checks [OF serves]
  have l: "list_all (\<lambda>k. \<exists>a. fst (rd_get_data stub_env (reader ?S) k) = Inr a) [0, 1, 2]"
    by (simp add: stub_env_simps list_getitem_def stub_frames_def)
  have two: "fst (get stub_env ?S 2)
       = Inr \<lparr>payload = \<lparr>shape = [2, 2], dtype = ''uint8'', pixels = [30, 31, 32, 33]\<rparr>,
              frame_no = 2, metadata = [(''t'', ''0.2'')]\<rparr>"
    by (simp add: get_def len_def get_frame_result stub_env_simps list_getitem_def
          stub_frames_def)
  have pos: "0 < len ?S" and l1: "len ?S - 1 = 2" by (simp_all add: len_def)
  from t pos have "fst (get stub_env ?S (- 1)) = fst (get stub_env ?S (len ?S - 1))"
    by blast
  with two l1 have last: "fst (get stub_env ?S (- 1))
       = Inr \<lparr>payload = \<lparr>shape = [2, 2], dtype = ''uint8'', pixels = [30, 31, 32, 33]\<rparr>,
              frame_no = 2, metadata = [(''t'', ''0.2'')]\<rparr>"
    by simp
  have o1: "(3::int) < - len ?S \<or> len ?S \<le> 3" and o2: "(- 4::int) < - len ?S \<or> len ?S \<le> - 4"
    by (simp_all add: len_def)
  from t o1 have hi: "fst (get stub_env ?S 3) = Inl IndexError" by (metis fst_conv)
  from t o2 have lo: "fst (get stub_env ?S (- 4)) = Inl IndexError" by (metis fst_conv)
  from l last two hi lo show ?thesis by (intro conjI)
qed

subsection \<open>\<^verbatim>\<open>close\<close>\<close>

lemma close_result:
  "fst (close w self) = (case fst (rd_close w (reader self)) of Inl e \<Rightarrow> Some e | Inr u \<Rightarrow> None)"
  by (simp add: close_def split: prod.splits sum.splits)

lemma close_state:
  "snd (close w self) = self\<lparr>reader := snd (rd_close w (reader self))\<rparr>"
  by (simp add: close_def split: prod.splits sum.splits)

lemma logged_close_calls:
  "calls_of (snd (close (logged w) self)) = calls_of self @ [Call_close]"
  by (cases "reader self")
     (simp add: close_def logged_simps calls_of_def split: prod.splits sum.splits)

lemma iter_loop_closed:
  "reader_contract w closed \<Longrightarrow> closed r \<Longrightarrow> closed (snd (snd (iter_loop w js r)))"
proof (induction js arbitrary: r)
  case Nil
  then show ?case by simp
next
  case (Cons j js)
  from Cons.prems have nx: "closed (snd (rd_next w r))"
    by (simp add: reader_contract_def)
  show ?case
  proof (cases "rd_next w r")
    case (Pair res r')
    with nx have c: "closed r'" by simp
    show ?thesis
    proof (cases res)
      case (Inl e)
      with Pair c show ?thesis by simp
    next
      case (Inr a)
      with Pair Cons.IH [OF Cons.prems(1) c] show ?thesis
        by (simp add: case_prod_unfold)
    qed
  qed
qed

lemma apply_use_closed:
  assumes c: "reader_contract w closed" and r: "closed (reader self)"
  shows "closed (reader (apply_use w self u))"
proof (cases u)
  case (Use_get_frame i)
  from c r obtain msg where "rd_get_data w (reader self) i = (Inl (RuntimeError msg), reader self)"
    unfolding reader_contract_def by blast
  with r show ?thesis by (simp add: Use_get_frame get_frame_def)
next
  case Use_get_metadata
  from c r have "closed (snd (rd_get_meta_data w (reader self) None))"
    by (simp add: reader_contract_def)
  then show ?thesis by (simp add: Use_get_metadata get_metadata_def case_prod_unfold)
next
  case Use_iter
  from c r have it: "closed (rd_iter_data w (reader self))"
    by (simp add: reader_contract_def)
  from iter_loop_closed [OF c it] it show ?thesis
    by (simp add: Use_iter iter_frames_def Let_def case_prod_unfold split: sum.splits)
next
  case Use_close
  from c have "closed (snd (rd_close w (reader self)))"
    by (simp add: reader_contract_def)
  then show ?thesis by (simp add: Use_close close_state)
qed (use r in simp_all)

lemma lifetime_closed:
  "reader_contract w closed \<Longrightarrow> closed (reader self) \<Longrightarrow>
   closed (reader (lifetime w self us))"
  unfolding lifetime_def
  by (induction us arbitrary: self) (simp_all add: apply_use_closed)

text \<open>
  Claim C9.  The reader of an \<^verbatim>\<open>ImageIOReader\<close> is the one imageio's \<^verbatim>\<open>get_reader\<close>
  returned.  With a reader that closes as imageio documents (\<open>reader_contract\<close>): a second
  \<^verbatim>\<open>close()\<close> does not raise and changes nothing, and neither does any later \<^verbatim>\<open>close()\<close>;
  and after a \<^verbatim>\<open>close()\<close>, whatever is done with the object afterwards, every
  \<^verbatim>\<open>get_frame(i)\<close> raises the reader's RuntimeError for use after close (the specification's
  ClosedSequence).
\<close>

theorem close_then_closed:
  assumes c: "reader_contract w closed"
  shows "fst (close w (snd (close w self))) = None
         \<and> snd (close w (snd (close w self))) = snd (close w self)
         \<and> (\<forall>us. fst (close w (lifetime w (snd (close w self)) us)) = None)
         \<and> (\<forall>us i. \<exists>msg. fst (get_frame w (lifetime w (snd (close w self)) us) i)
                           = Inl (RuntimeError msg))"
proof -
  let ?s = "snd (close w self)"
  from c have c1: "closed (reader ?s)"
    by (simp add: close_state reader_contract_def)
  have again: "closed (reader x) \<Longrightarrow> close w x = (None, x)" for x
  proof -
    assume "closed (reader x)"
    with c have "rd_close w (reader x) = (Inr (), reader x)"
      by (simp add: reader_contract_def)
    then show "close w x = (None, x)" by (simp add: close_def)
  qed
  have a: "fst (close w ?s) = None" and b: "snd (close w ?s) = ?s"
    using again [OF c1] by simp_all
  have d: "\<forall>us. fst (close w (lifetime w ?s us)) = None"
    using again [OF lifetime_closed [OF c c1]] by simp
  have e: "\<forall>us i. \<exists>msg. fst (get_frame w (lifetime w ?s us) i) = Inl (RuntimeError msg)"
  proof (intro allI)
    fix us i
    from c lifetime_closed [OF c c1, of us]
    obtain msg where "rd_get_data w (reader (lifetime w ?s us)) i
                        = (Inl (RuntimeError msg), reader (lifetime w ?s us))"
      unfolding reader_contract_def by blast
    then have "fst (get_frame w (lifetime w ?s us) i) = Inl (RuntimeError msg)"
      by (simp add: get_frame_result)
    then show "\<exists>msg. fst (get_frame w (lifetime w ?s us) i) = Inl (RuntimeError msg)" ..
  qed
  from a b d e show ?thesis by (intro conjI)
qed

lemma closing_env_simps:
  "get_reader closing_env p kw = (if p = ''seq.stub'' then Inr False
                                  else Inl (Raised ''No such file''))"
  "rd_get_length closing_env c = (Inr 3, c)"
  "rd_get_data closing_env c i =
     (if c then (Inl (RuntimeError ''I/O operation on closed Reader.''), c)
      else (list_getitem stub_frames i, c))"
  "rd_get_meta_data closing_env c j = (Inr [], c)"
  "rd_iter_data closing_env c = c"
  "rd_next closing_env c = (Inl StopIteration, c)"
  "rd_close closing_env c = (Inr (), True)"
  by (simp_all add: closing_env_def)

lemma closing_env_contract: "reader_contract closing_env (\<lambda>c. c)"
  by (simp add: reader_contract_def closing_env_simps)

theorem close_then_closed_witness:
  "reader_contract closing_env (\<lambda>c. c)
   \<and> fst (get_frame closing_env \<lparr>reader = False, filename = ''seq.stub'', priv_len = 3,
            priv_shape = Some [2, 2], priv_dtype = Some ''uint8''\<rparr> 0)
       = Inr \<lparr>payload = \<lparr>shape = [2, 2], dtype = ''uint8'', pixels = [10, 11, 12, 13]\<rparr>,
              frame_no = 0, metadata = [(''t'', ''0.0'')]\<rparr>
   \<and> fst (close closing_env \<lparr>reader = False, filename = ''seq.stub'', priv_len = 3,
            priv_shape = Some [2, 2], priv_dtype = Some ''uint8''\<rparr>) = None
   \<and> fst (close closing_env
        (snd (close closing_env \<lparr>reader = False, filename = ''seq.stub'', priv_len = 3,
                        priv_shape = Some [2, 2], priv_dtype = Some ''uint8''\<rparr>))) = None
   \<and> fst (get_frame closing_env
        (lifetime closing_env
           (snd (close closing_env \<lparr>reader = False, filename = ''seq.stub'', priv_len = 3,
                        priv_shape = Some [2, 2], priv_dtype = Some ''uint8''\<rparr>))
           [Use_close, Use_iter]) 0)
       = Inl (RuntimeError ''I/O operation on closed Reader.'')"
proof -
  let ?S = "\<lparr>reader = False, filename = ''seq.stub'', priv_len = 3,
                        priv_shape = Some [2, 2], priv_dtype = Some ''uint8''\<rparr>"
  let ?us = "[Use_close, Use_iter]"
  note c = closing_env_contract
  note t = close_then_closed [OF c, of ?S]
  have before: "fst (get_frame closing_env ?S 0)
       = Inr \<lparr>payload = \<lparr>shape = [2, 2], dtype = ''uint8'', pixels = [10, 11, 12, 13]\<rparr>,
              frame_no = 0, metadata = [(''t'', ''0.0'')]\<rparr>"
    by (simp add: get_frame_result closing_env_simps list_getitem_def stub_frames_def)
  have first: "fst (close closing_env ?S) = None"
    by (simp add: close_result closing_env_simps)
  from t have second: "fst (close closing_env (snd (close closing_env ?S))) = None"
    by blast
  from t obtain msg where
    m: "fst (get_frame closing_env (lifetime closing_env (snd (close closing_env ?S)) ?us) 0)
          = Inl (RuntimeError msg)"
    by blast
  have "lifetime closing_env (snd (close closing_env ?S)) ?us = ?S\<lparr>reader := True\<rparr>"
    by code_simp
  then have "fst (get_frame closing_env (lifetime closing_env (snd (close closing_env ?S)) ?us) 0)
          = Inl (RuntimeError ''I/O operation on closed Reader.'')"
    by (simp add: get_frame_result closing_env_simps)
  with m have after:
    "fst (get_frame closing_env (lifetime closing_env (snd (close closing_env ?S)) ?us) 0)
          = Inl (RuntimeError ''I/O operation on closed Reader.'')"
    by simp
  from c before first second after show ?thesis by (intro conjI)
qed

subsection \<open>Frame numbers: \<^verbatim>\<open>get_frame\<close> and iteration\<close>

lemma iter_loop_Cons_fst:
  "fst (iter_loop w (j # js) r) =
     (case rd_next w r of
        (Inl e, r') \<Rightarrow> []
      | (Inr a, r') \<Rightarrow>
          \<lparr>payload = arr a, frame_no = j, metadata = meta a\<rparr> # fst (iter_loop w js r'))"
  by (simp split: prod.splits sum.splits)

lemma iter_loop_Cons_out:
  "fst (snd (iter_loop w (j # js) r)) =
     (case rd_next w r of
        (Inl e, r') \<Rightarrow> generator_exit (pep479 w) e
      | (Inr a, r') \<Rightarrow> fst (snd (iter_loop w js r')))"
  by (simp split: prod.splits sum.splits)

lemma iter_loop_length: "length (fst (iter_loop w js r)) \<le> length js"
proof (induction js arbitrary: r)
  case Nil
  show ?case by simp
next
  case (Cons j js)
  show ?case
  proof (cases "rd_next w r")
    case (Pair res r')
    with Cons.IH [of r'] show ?thesis
      by (cases res) (simp_all add: iter_loop_Cons_fst del: iter_loop.simps)
  qed
qed

lemma iter_loop_frame_nos:
  "map frame_no (fst (iter_loop w js r)) = take (length (fst (iter_loop w js r))) js"
proof (induction js arbitrary: r)
  case Nil
  show ?case by simp
next
  case (Cons j js)
  show ?case
  proof (cases "rd_next w r")
    case (Pair res r')
    with Cons.IH [of r'] show ?thesis
      by (cases res) (simp_all add: iter_loop_Cons_fst del: iter_loop.simps)
  qed
qed

lemma iter_loop_supplied:
  "supplies w r as \<Longrightarrow> length js = length as \<Longrightarrow>
   fst (iter_loop w js r)
     = map (\<lambda>(a, j). \<lparr>payload = arr a, frame_no = j, metadata = meta a\<rparr>) (zip as js)
   \<and> fst (snd (iter_loop w js r)) = None"
proof (induction js arbitrary: r as)
  case Nil
  then show ?case by simp
next
  case (Cons j js)
  then obtain a rest where as: "as = a # rest" by (cases as) auto
  with Cons.prems obtain r' where nx: "rd_next w r = (Inr a, r')" and sup: "supplies w r' rest"
    by (auto split: prod.splits sum.splits)
  from Cons.prems as have "length js = length rest" by simp
  from Cons.IH [OF sup this] show ?case
    by (simp add: as nx iter_loop_Cons_fst iter_loop_Cons_out del: iter_loop.simps)
qed

lemma map_zip_frames:
  "length as = length js \<Longrightarrow>
   map payload (map (\<lambda>(a, j). \<lparr>payload = arr a, frame_no = j, metadata = meta a\<rparr>) (zip as js))
     = map arr as
   \<and> map metadata (map (\<lambda>(a, j). \<lparr>payload = arr a, frame_no = j, metadata = meta a\<rparr>) (zip as js))
     = map meta as
   \<and> map frame_no (map (\<lambda>(a, j). \<lparr>payload = arr a, frame_no = j, metadata = meta a\<rparr>) (zip as js))
     = js"
  by (induction as js rule: list_induct2) simp_all

lemma py_range_length: "length (py_range n) = nat n"
  by (simp add: py_range_def)

lemma take_py_range: "k \<le> nat n \<Longrightarrow> take k (py_range n) = py_range (int k)"
  by (simp add: py_range_def take_map)

lemma iter_frames_fst:
  "fst (iter_frames w self) =
     (if len self < 0 \<or> maxsize w < len self then []
      else fst (iter_loop w (py_range (len self)) (rd_iter_data w (reader self))))"
  by (simp add: iter_frames_def py_len_def Let_def split: prod.splits)

lemma iter_frames_out:
  "fst (snd (iter_frames w self)) =
     (if len self < 0 then Some ValueError
      else if maxsize w < len self then Some OverflowError
      else fst (snd (iter_loop w (py_range (len self)) (rd_iter_data w (reader self)))))"
  by (simp add: iter_frames_def py_len_def Let_def split: prod.splits)

text \<open>
  Claim C7.  Whenever the backend's \<^verbatim>\<open>get_data(k)\<close> returns an array, \<^verbatim>\<open>get_frame(k)\<close>
  returns a frame with \<^verbatim>\<open>frame_no = k\<close>, that array as payload and the array's \<^verbatim>\<open>meta\<close> as
  metadata (so in particular for every valid non-negative \<open>k\<close>).  The frames that iterating
  yields are numbered \<open>0, 1, 2, ...\<close> in the order they are yielded, and there are never more
  than \<^verbatim>\<open>len\<close> of them.  When the length is one the builtin \<^verbatim>\<open>len\<close> accepts (at most
  \<^verbatim>\<open>sys.maxsize\<close>) and the backend's iterator supplies \<^verbatim>\<open>len\<close> arrays, the iteration ends
  without an exception after exactly \<^verbatim>\<open>len\<close> frames, numbered \<open>0, ..., len - 1\<close> in that
  order, with the payloads and metadata the backend supplied.  With a length above
  \<^verbatim>\<open>sys.maxsize\<close> the iteration raises OverflowError before its first frame.
\<close>

theorem frames_numbered_in_order:
  "(\<forall>a. fst (rd_get_data w (reader self) k) = Inr a \<longrightarrow>
       (\<exists>fr. fst (get_frame w self k) = Inr fr \<and> frame_no fr = k
             \<and> metadata fr = meta a \<and> payload fr = arr a))
   \<and> map frame_no (fst (iter_frames w self))
        = py_range (int (length (fst (iter_frames w self))))
   \<and> length (fst (iter_frames w self)) \<le> nat (len self)
   \<and> (\<forall>as. supplies w (rd_iter_data w (reader self)) as \<longrightarrow> int (length as) = len self \<longrightarrow>
         len self \<le> maxsize w \<longrightarrow>
         fst (snd (iter_frames w self)) = None
         \<and> int (length (fst (iter_frames w self))) = len self
         \<and> map frame_no (fst (iter_frames w self)) = py_range (len self)
         \<and> map payload (fst (iter_frames w self)) = map arr as
         \<and> map metadata (fst (iter_frames w self)) = map meta as)
   \<and> (0 \<le> len self \<longrightarrow> maxsize w < len self \<longrightarrow>
         fst (iter_frames w self) = [] \<and> fst (snd (iter_frames w self)) = Some OverflowError)"
proof (intro conjI allI impI)
  fix a assume "fst (rd_get_data w (reader self) k) = Inr a"
  then show "\<exists>fr. fst (get_frame w self k) = Inr fr \<and> frame_no fr = k
             \<and> metadata fr = meta a \<and> payload fr = arr a"
    by (simp add: get_frame_result)
next
  let ?l = "iter_loop w (py_range (len self)) (rd_iter_data w (reader self))"
  have le: "length (fst ?l) \<le> nat (len self)"
    using iter_loop_length [of w "py_range (len self)"] by (simp add: py_range_length)
  show "length (fst (iter_frames w self)) \<le> nat (len self)"
    by (simp add: iter_frames_fst le)
  show "map frame_no (fst (iter_frames w self))
        = py_range (int (length (fst (iter_frames w self))))"
  proof (cases "len self < 0 \<or> maxsize w < len self")
    case True
    then show ?thesis by (simp add: iter_frames_fst py_range_def)
  next
    case False
    then have fs: "fst (iter_frames w self) = fst ?l"
      by (simp add: iter_frames_fst)
    show ?thesis
      by (simp add: fs iter_loop_frame_nos [of w "py_range (len self)"] take_py_range [OF le])
  qed
next
  fix as
  assume sup: "supplies w (rd_iter_data w (reader self)) as" and n: "int (length as) = len self"
    and mx: "len self \<le> maxsize w"
  let ?l = "iter_loop w (py_range (len self)) (rd_iter_data w (reader self))"
  from n have nn: "\<not> len self < 0" by linarith
  have fs: "fst (iter_frames w self) = fst ?l" and out: "fst (snd (iter_frames w self)) = fst (snd ?l)"
    using nn mx by (simp_all add: iter_frames_fst iter_frames_out)
  from n have len: "length (py_range (len self)) = length as"
    by (simp add: py_range_length)
  note s = iter_loop_supplied [OF sup len]
  from s show "fst (snd (iter_frames w self)) = None" by (simp add: out)
  from s len show "int (length (fst (iter_frames w self))) = len self" by (simp add: fs n)
  from len have len': "length as = length (py_range (len self))" by simp
  from s show "map frame_no (fst (iter_frames w self)) = py_range (len self)"
    by (simp only: fs map_zip_frames [OF len'])
  from s show "map payload (fst (iter_frames w self)) = map arr as"
    by (simp only: fs map_zip_frames [OF len'])
  from s show "map metadata (fst (iter_frames w self)) = map meta as"
    by (simp only: fs map_zip_frames [OF len'])
next
  assume "0 \<le> len self" "maxsize w < len self"
  then show "fst (iter_frames w self) = []"
    and "fst (snd (iter_frames w self)) = Some OverflowError"
    by (simp_all add: iter_frames_fst iter_frames_out)
qed

lemma supplies_stub: "supplies stub_env 0 stub_frames"
  by (simp add: stub_env_simps stub_frames_def)

lemma stub_iter:
  "iter_frames stub_env \<lparr>reader = 0, filename = ''seq.stub'', priv_len = 3,
                         priv_shape = Some [2, 2], priv_dtype = Some ''uint8''\<rparr>
   = ([\<lparr>payload = \<lparr>shape = [2, 2], dtype = ''uint8'', pixels = [10, 11, 12, 13]\<rparr>,
        frame_no = 0, metadata = [(''t'', ''0.0'')]\<rparr>,
       \<lparr>payload = \<lparr>shape = [2, 2], dtype = ''uint8'', pixels = [20, 21, 22, 23]\<rparr>,
        frame_no = 1, metadata = [(''t'', ''0.1'')]\<rparr>,
       \<lparr>payload = \<lparr>shape = [2, 2], dtype = ''uint8'', pixels = [30, 31, 32, 33]\<rparr>,
        frame_no = 2, metadata = [(''t'', ''0.2'')]\<rparr>],
      None,
      \<lparr>reader = 3, filename = ''seq.stub'', priv_len = 3,
       priv_shape = Some [2, 2], priv_dtype = Some ''uint8''\<rparr>)"
  by code_simp

theorem frames_numbered_in_order_witness:
  "fst (rd_get_data stub_env (reader \<lparr>reader = 0::nat, filename = ''seq.stub'', priv_len = 3,
          priv_shape = Some [2, 2], priv_dtype = Some ''uint8''\<rparr>) 1)
     = Inr \<lparr>arr = \<lparr>shape = [2, 2], dtype = ''uint8'', pixels = [20, 21, 22, 23]\<rparr>,
            meta = [(''t'', ''0.1'')]\<rparr>
   \<and> fst (get_frame stub_env \<lparr>reader = 0, filename = ''seq.stub'', priv_len = 3,
          priv_shape = Some [2, 2], priv_dtype = Some ''uint8''\<rparr> 1)
     = Inr \<lparr>payload = \<lparr>shape = [2, 2], dtype = ''uint8'', pixels = [20, 21, 22, 23]\<rparr>,
            frame_no = 1, metadata = [(''t'', ''0.1'')]\<rparr>
   \<and> supplies stub_env
        (rd_iter_data stub_env (reader \<lparr>reader = 0::nat, filename = ''seq.stub'', priv_len = 3,
          priv_shape = Some [2, 2], priv_dtype = Some ''uint8''\<rparr>)) stub_frames
   \<and> int (length stub_frames) = len \<lparr>reader = 0::nat, filename = ''seq.stub'', priv_len = 3,
          priv_shape = Some [2, 2], priv_dtype = Some ''uint8''\<rparr>
   \<and> len \<lparr>reader = 0::nat, filename = ''seq.stub'', priv_len = 3,
          priv_shape = Some [2, 2], priv_dtype = Some ''uint8''\<rparr> \<le> maxsize stub_env
   \<and> fst (snd (iter_frames stub_env \<lparr>reader = 0, filename = ''seq.stub'', priv_len = 3,
          priv_shape = Some [2, 2], priv_dtype = Some ''uint8''\<rparr>)) = None
   \<and> map frame_no (fst (iter_frames stub_env \<lparr>reader = 0, filename = ''seq.stub'',
          priv_len = 3, priv_shape = Some [2, 2], priv_dtype = Some ''uint8''\<rparr>)) = [0, 1, 2]
   \<and> maxsize stub_env < len \<lparr>reader = 0::nat, filename = ''seq.stub'',
          priv_len = 9223372036854775808, priv_shape = Some [2, 2],
          priv_dtype = Some ''uint8''\<rparr>
   \<and> fst (snd (iter_frames stub_env \<lparr>reader = 0, filename = ''seq.stub'',
          priv_len = 9223372036854775808, priv_shape = Some [2, 2],
          priv_dtype = Some ''uint8''\<rparr>)) = Some OverflowError"
proof -
  let ?S = "\<lparr>reader = 0::nat, filename = ''seq.stub'', priv_len = 3,
          priv_shape = Some [2, 2], priv_dtype = Some ''uint8''\<rparr>"
  let ?B = "\<lparr>reader = 0::nat, filename = ''seq.stub'', priv_len = 9223372036854775808,
          priv_shape = Some [2, 2], priv_dtype = Some ''uint8''\<rparr>"
  let ?a = "\<lparr>arr = \<lparr>shape = [2, 2], dtype = ''uint8'', pixels = [20, 21, 22, 23]\<rparr>,
            meta = [(''t'', ''0.1'')]\<rparr>"
  note t = frames_numbered_in_order [of stub_env ?S 1]
  note tb = frames_numbered_in_order [of stub_env ?B 1]
  have g: "fst (rd_get_data stub_env (reader ?S) 1) = Inr ?a"
    by (simp add: stub_env_simps list_getitem_def stub_frames_def)
  have sup: "supplies stub_env (rd_iter_data stub_env (reader ?S)) stub_frames"
    by (simp add: stub_env_simps supplies_stub)
  have n: "int (length stub_frames) = len ?S"
    by (simp add: stub_frames_def len_def)
  have mx: "len ?S \<le> maxsize stub_env"
    by (simp add: len_def stub_env_simps)
  have big: "maxsize stub_env < len ?B" and pos: "0 \<le> len ?B"
    by (simp_all add: len_def stub_env_simps)
  from t g obtain fr where "fst (get_frame stub_env ?S 1) = Inr fr" "frame_no fr = 1"
    "metadata fr = meta ?a" "payload fr = arr ?a"
    by blast
  then have f: "fst (get_frame stub_env ?S 1)
     = Inr \<lparr>payload = \<lparr>shape = [2, 2], dtype = ''uint8'', pixels = [20, 21, 22, 23]\<rparr>,
            frame_no = 1, metadata = [(''t'', ''0.1'')]\<rparr>"
    by (cases fr) simp
  from t sup n mx have out: "fst (snd (iter_frames stub_env ?S)) = None"
    and nos: "map frame_no (fst (iter_frames stub_env ?S)) = py_range (len ?S)"
    by blast+
  have "py_range (len ?S) = [0, 1, 2]"
    by code_simp
  with nos have nos': "map frame_no (fst (iter_frames stub_env ?S)) = [0, 1, 2]"
    by simp
  from tb big pos have ov: "fst (snd (iter_frames stub_env ?B)) = Some OverflowError"
    by blast
  from g f sup n mx out nos' big ov show ?thesis by (intro conjI)
qed

subsection \<open>The pipelines of the viewer\<close>

lemma run_pipelines_append:
  "run_pipelines (fs @ gs) x =
     (case run_pipelines fs x of Inl e \<Rightarrow> Inl e | Inr y \<Rightarrow> run_pipelines gs y)"
  by (induction fs arbitrary: x) (auto split: sum.splits)

lemma run_pipelines_pure:
  "run_pipelines (map pure_func As) x = Inr (fold (\<lambda>A. A) As x)"
  by (induction As arbitrary: x) (simp_all add: pure_func_def)

lemma chain_nonempty: "chain ops s fs \<noteq> []"
  by (cases fs) simp_all

lemma length_chain: "length (chain ops s fs) = Suc (length fs)"
  by (induction fs arbitrary: s) simp_all

lemma show_loop_chain:
  "k + length fs < length res \<Longrightarrow> res ! k = Some s \<Longrightarrow>
   show_loop ops (zip [k ..< k + length fs] fs) res
     = take k res @ map Some (chain ops s fs) @ drop (k + length fs + 1) res"
proof (induction fs arbitrary: k res s)
  case Nil
  then show ?case
    using id_take_nth_drop [of k res] by simp
next
  case (Cons f fs)
  let ?res1 = "res[k + 1 := map_option (pipeline ops f) (res ! k)]"
  have u: "[k ..< k + length (f # fs)] = k # [Suc k ..< Suc k + length fs]"
    by (subst upt_rec) simp
  have z: "zip [k ..< k + length (f # fs)] (f # fs)
             = (k, f) # zip [Suc k ..< Suc k + length fs] fs"
    by (simp only: u zip_Cons_Cons)
  have a: "Suc k + length fs < length ?res1" using Cons.prems by simp
  have b: "?res1 ! Suc k = Some (pipeline ops f s)" using Cons.prems by simp
  have t: "take (Suc k) ?res1 = take k res @ [Some s]"
    using Cons.prems by (simp add: take_Suc_conv_app_nth)
  have d: "drop (Suc k + length fs + 1) ?res1 = drop (k + length (f # fs) + 1) res"
    by simp
  from Cons.IH [OF a b] show ?case
    by (simp only: z show_loop.simps t d) simp
qed

lemma show_result_chain:
  "show_result ops self = map Some (chain ops (viewer_reader self) (pipelines self))"
proof -
  let ?n = "length (pipelines self)"
  let ?res = "(replicate (?n + 1) None)[0 := Some (viewer_reader self)]"
  have "show_loop ops (zip [0 ..< 0 + ?n] (pipelines self)) ?res
          = take 0 ?res @ map Some (chain ops (viewer_reader self) (pipelines self))
              @ drop (0 + ?n + 1) ?res"
    by (rule show_loop_chain) simp_all
  then show ?thesis
    by (simp add: show_result_def enumerate_from0_def)
qed

lemma chain_access:
  "pipeline_law ops \<Longrightarrow> j \<le> length fs \<Longrightarrow>
   fst (seq_getitem ops (chain ops s fs ! j) i)
     = (case fst (seq_getitem ops s i) of
          Inl e \<Rightarrow> Inl e
        | Inr x \<Rightarrow> run_pipelines (take j fs) x)"
proof (induction fs arbitrary: s j)
  case Nil
  then show ?case by (simp split: sum.splits)
next
  case (Cons f fs)
  show ?case
  proof (cases j)
    case 0
    then show ?thesis by (simp split: sum.splits)
  next
    case (Suc j')
    with Cons.prems have "j' \<le> length fs" by simp
    from Cons.IH [OF Cons.prems(1) this, of "pipeline ops f s"] Cons.prems(1)
    show ?thesis
      by (simp add: Suc pipeline_law_def split: sum.splits)
  qed
qed


lemma update_image_pure2:
  "update_image (self\<lparr>pipelines := [pure_func A, pure_func B]\<rparr>)
     = (None, self\<lparr>pipelines := [pure_func A, pure_func B],
                    priv_img := B (A (original_image self))\<rparr>)"
  by (simp add: update_image_def pure_func_def)

text \<open>
  Claim C8.  With the two pure transforms \<open>A\<close> and \<open>B\<close> registered in that order,
  \<^verbatim>\<open>update_image\<close> displays \<open>B (A p)\<close> for the current raw image \<open>p\<close>; and, \<^verbatim>\<open>pipeline\<close>
  applying its function to the item it reads, the list that \<^verbatim>\<open>show\<close> returns is the reader,
  the reader wrapped in \<open>A\<close>, and that one wrapped in \<open>B\<close>, whose item \<open>i\<close> is \<open>A p\<close> and
  \<open>B (A p)\<close> when item \<open>i\<close> of the reader is \<open>p\<close>.  The earliest registered transform is
  applied first.  (\<open>chain_access\<close> and \<open>run_pipelines_pure\<close> say the same for any number of
  transforms.)
\<close>

theorem pipelines_compose_in_order:
  "fst (update_image (self\<lparr>pipelines := [pure_func A, pure_func B]\<rparr>)) = None
   \<and> priv_img (snd (update_image (self\<lparr>pipelines := [pure_func A, pure_func B]\<rparr>)))
       = B (A (original_image self))
   \<and> (pipeline_law ops \<longrightarrow> pipelines self = [pure_func A, pure_func B] \<longrightarrow>
        (\<exists>s1 s2. show_result ops self = [Some (viewer_reader self), Some s1, Some s2]
           \<and> (\<forall>i p. fst (seq_getitem ops (viewer_reader self) i) = Inr p \<longrightarrow>
                 fst (seq_getitem ops s1 i) = Inr (A p)
                 \<and> fst (seq_getitem ops s2 i) = Inr (B (A p)))))"
proof (intro conjI impI)
  show "fst (update_image (self\<lparr>pipelines := [pure_func A, pure_func B]\<rparr>)) = None"
    by (simp add: update_image_pure2)
  show "priv_img (snd (update_image (self\<lparr>pipelines := [pure_func A, pure_func B]\<rparr>)))
       = B (A (original_image self))"
    by (simp add: update_image_pure2)
next
  assume law: "pipeline_law ops" and ps: "pipelines self = [pure_func A, pure_func B]"
  let ?r = "viewer_reader self"
  let ?s1 = "pipeline ops (pure_func A) ?r"
  let ?s2 = "pipeline ops (pure_func B) ?s1"
  have res: "show_result ops self = [Some ?r, Some ?s1, Some ?s2]"
    by (simp add: show_result_chain ps)
  have acc: "\<forall>i p. fst (seq_getitem ops ?r i) = Inr p \<longrightarrow>
                 fst (seq_getitem ops ?s1 i) = Inr (A p)
                 \<and> fst (seq_getitem ops ?s2 i) = Inr (B (A p))"
  proof (intro allI impI)
    fix i p assume p: "fst (seq_getitem ops ?r i) = Inr p"
    have c: "chain ops ?r [pure_func A, pure_func B] = [?r, ?s1, ?s2]" by simp
    from chain_access [OF law, of 1 "[pure_func A, pure_func B]" ?r i] p
    have one: "fst (seq_getitem ops ?s1 i) = Inr (A p)"
      by (simp add: pure_func_def)
    from chain_access [OF law, of 2 "[pure_func A, pure_func B]" ?r i] p
    have two: "fst (seq_getitem ops ?s2 i) = Inr (B (A p))"
      by (simp add: pure_func_def)
    from one two show "fst (seq_getitem ops ?s1 i) = Inr (A p)
                 \<and> fst (seq_getitem ops ?s2 i) = Inr (B (A p))" ..
  qed
  from res acc show "\<exists>s1 s2. show_result ops self = [Some ?r, Some s1, Some s2]
           \<and> (\<forall>i p. fst (seq_getitem ops ?r i) = Inr p \<longrightarrow>
                 fst (seq_getitem ops s1 i) = Inr (A p)
                 \<and> fst (seq_getitem ops s2 i) = Inr (B (A p)))"
    by blast
qed

lemma list_ops_simps:
  "seq_len list_ops s = int (length s)"
  "seq_getitem list_ops s i = (case list_getitem s i of Inl e \<Rightarrow> Inl e | Inr x \<Rightarrow> x, s)"
  "pipeline list_ops f s = map (\<lambda>x. case x of Inl e \<Rightarrow> Inl e | Inr y \<Rightarrow> f y) s"
  by (simp_all add: list_ops_def)

lemma pipeline_law_list_ops: "pipeline_law list_ops"
  by (auto simp: pipeline_law_def list_ops_simps list_getitem_def split: sum.splits)


theorem pipelines_compose_in_order_witness:
  "pipeline_law list_ops
   \<and> fst (seq_getitem list_ops [Inr 1, Inr 2, Inr 3] 1) = Inr 2
   \<and> priv_img (snd (update_image
        \<lparr>pipelines = [pure_func (\<lambda>x. x + 1), pure_func (\<lambda>x. 2 * x)], index = 1,
         viewer_reader = [Inr 1, Inr 2, Inr 3 :: exn + int], original_image = 2::int,
         priv_img = 0, slider_val = 1\<rparr>)) = 6
   \<and> show_result list_ops
        \<lparr>pipelines = [pure_func (\<lambda>x. x + 1), pure_func (\<lambda>x. 2 * x)], index = 1,
         viewer_reader = [Inr 1, Inr 2, Inr 3], original_image = 2, priv_img = 0,
         slider_val = 1\<rparr>
       = [Some [Inr 1, Inr 2, Inr 3], Some [Inr 2, Inr 3, Inr 4], Some [Inr 4, Inr 6, Inr 8]]
   \<and> fst (seq_getitem list_ops [Inr 4, Inr 6, Inr 8] 1) = Inr 6"
proof -
  let ?V = "\<lparr>pipelines = [pure_func (\<lambda>x. x + 1), pure_func (\<lambda>x. 2 * x)], index = 1,
         viewer_reader = [Inr 1, Inr 2, Inr 3 :: exn + int], original_image = 2::int,
         priv_img = 0,
         slider_val = 1\<rparr>"
  note t = pipelines_compose_in_order
    [where self = ?V and A = "\<lambda>x. x + 1" and B = "\<lambda>x. 2 * x" and ops = list_ops]
  have law: "pipeline_law list_ops" by (rule pipeline_law_list_ops)
  have ps: "pipelines ?V = [pure_func (\<lambda>x. x + 1), pure_func (\<lambda>x. 2 * x)]" by simp
  have root: "fst (seq_getitem list_ops (viewer_reader ?V) 1) = Inr 2"
    by (simp add: list_ops_simps list_getitem_def)
  have sr: "show_result list_ops ?V
       = [Some [Inr 1, Inr 2, Inr 3], Some [Inr 2, Inr 3, Inr 4], Some [Inr 4, Inr 6, Inr 8]]"
    by (simp add: show_result_chain list_ops_simps pure_func_def)
  from t have img: "priv_img (snd (update_image ?V)) = 6" by simp
  from t law ps obtain s1 s2 where
    r: "show_result list_ops ?V = [Some (viewer_reader ?V), Some s1, Some s2]"
    and acc: "\<forall>i p. fst (seq_getitem list_ops (viewer_reader ?V) i) = Inr p \<longrightarrow>
                 fst (seq_getitem list_ops s1 i) = Inr (p + 1)
                 \<and> fst (seq_getitem list_ops s2 i) = Inr (2 * (p + 1))"
    by blast
  from r sr have s2: "s2 = [Inr 4, Inr 6, Inr 8]" by simp
  from acc root have "fst (seq_getitem list_ops s2 1) = Inr (2 * (2 + 1))" by blast
  with s2 have last: "fst (seq_getitem list_ops [Inr 4, Inr 6, Inr 8] 1) = Inr 6" by simp
  from root have root': "fst (seq_getitem list_ops [Inr 1, Inr 2, Inr 3] 1) = Inr 2" by simp
  from law root' img sr last show ?thesis by (intro conjI)
qed

subsection \<open>The index of the viewer\<close>

lemma update_image_keeps:
  "index (snd (update_image v)) = index v"
  "viewer_reader (snd (update_image v)) = viewer_reader v"
  "slider_val (snd (update_image v)) = slider_val v"
  by (simp_all add: update_image_def split: sum.splits)

lemma update_index_same:
  "min (max i 0) (seq_len ops (viewer_reader self) - 1) = index self \<Longrightarrow>
   update_index ops self i = (None, self)"
  by (simp add: update_index_def)

lemma update_index_index:
  "index (snd (update_index ops self i)) = min (max i 0) (seq_len ops (viewer_reader self) - 1)"
  by (simp add: update_index_def Let_def update_image_keeps split: prod.splits sum.splits)

lemma logged_seq_simps:
  "seq_len (logged_seq ops) (s, log) = seq_len ops s"
  "seq_getitem (logged_seq ops) (s, log) i =
     (case seq_getitem ops s i of (res, s') \<Rightarrow> (res, (s', log @ [i])))"
  by (simp_all add: logged_seq_def)

lemma update_index_reads:
  "viewer_reader V = (s, log) \<Longrightarrow>
   snd (viewer_reader (snd (update_index (logged_seq ops) V i)))
     = log @ (if min (max i 0) (seq_len ops s - 1) = index V then []
              else [min (max i 0) (seq_len ops s - 1)])"
  by (simp add: update_index_def Let_def update_image_keeps logged_seq_simps
        split: prod.splits sum.splits)

lemma update_image_original:
  "original_image (snd (update_image v)) = original_image v"
  by (simp add: update_image_def split: sum.splits)

lemma update_index_read_result:
  "min (max i 0) (seq_len ops (viewer_reader self) - 1) \<noteq> index self \<Longrightarrow>
   seq_getitem ops (viewer_reader self) (min (max i 0) (seq_len ops (viewer_reader self) - 1))
     = (Inr img, s') \<Longrightarrow>
   original_image (snd (update_index ops self i)) = img
   \<and> viewer_reader (snd (update_index ops self i)) = s'"
  by (simp add: update_index_def Let_def update_image_keeps update_image_original)

text \<open>
  Claim C10.  For a reader of positive length and every integer given to \<^verbatim>\<open>update_index\<close>,
  the index stored afterwards is the argument clamped into \<open>[0, len - 1]\<close>.  When the
  clamped index differs from the current one, \<^verbatim>\<open>update_index\<close> reads the reader exactly
  once, at that stored index, and the image read becomes the raw image of the viewer; so no
  read is out of range.  When the clamped index is the current index, nothing is read and
  the viewer (its index, slider, raw and displayed image) is returned as it was.
\<close>

theorem update_index_clamps:
  fixes ops :: "('seq, 'img) seq_ops"
  assumes "0 < seq_len ops (viewer_reader self)"
  shows "index (snd (update_index ops self i))
           = min (max i 0) (seq_len ops (viewer_reader self) - 1)
         \<and> slider_val (snd (update_index ops self i))
           = (if min (max i 0) (seq_len ops (viewer_reader self) - 1) = index self
              then slider_val self else index (snd (update_index ops self i)))
         \<and> 0 \<le> index (snd (update_index ops self i))
         \<and> index (snd (update_index ops self i)) \<le> seq_len ops (viewer_reader self) - 1
         \<and> (\<forall>(V :: ('seq \<times> int list, 'img) Viewer) log.
              viewer_reader V = (viewer_reader self, log) \<longrightarrow>
                index (snd (update_index (logged_seq ops) V i))
                  = min (max i 0) (seq_len ops (viewer_reader self) - 1)
                \<and> snd (viewer_reader (snd (update_index (logged_seq ops) V i)))
                    = log @ (if min (max i 0) (seq_len ops (viewer_reader self) - 1) = index V
                             then []
                             else [index (snd (update_index (logged_seq ops) V i))]))
         \<and> (min (max i 0) (seq_len ops (viewer_reader self) - 1) \<noteq> index self \<longrightarrow>
              (\<forall>img s'. seq_getitem ops (viewer_reader self)
                            (min (max i 0) (seq_len ops (viewer_reader self) - 1))
                          = (Inr img, s') \<longrightarrow>
                 original_image (snd (update_index ops self i)) = img
                 \<and> viewer_reader (snd (update_index ops self i)) = s'))
         \<and> (min (max i 0) (seq_len ops (viewer_reader self) - 1) = index self \<longrightarrow>
              update_index ops self i = (None, self))"
proof -
  let ?c = "min (max i 0) (seq_len ops (viewer_reader self) - 1)"
  from assms have c: "0 \<le> ?c \<and> ?c \<le> seq_len ops (viewer_reader self) - 1"
    by auto
  have a: "index (snd (update_index ops self i)) = ?c"
    by (rule update_index_index)
  have sl: "slider_val (snd (update_index ops self i))
           = (if ?c = index self then slider_val self else index (snd (update_index ops self i)))"
    by (simp add: update_index_def Let_def update_image_keeps split: prod.splits sum.splits)
  have r: "\<forall>(V :: ('seq \<times> int list, 'img) Viewer) log.
              viewer_reader V = (viewer_reader self, log) \<longrightarrow>
                index (snd (update_index (logged_seq ops) V i)) = ?c
                \<and> snd (viewer_reader (snd (update_index (logged_seq ops) V i)))
                    = log @ (if ?c = index V then []
                             else [index (snd (update_index (logged_seq ops) V i))])"
  proof (intro allI impI)
    fix V :: "('seq \<times> int list, 'img) Viewer" and log
    assume V: "viewer_reader V = (viewer_reader self, log)"
    have i: "index (snd (update_index (logged_seq ops) V i)) = ?c"
      by (simp add: update_index_index V logged_seq_simps)
    have "snd (viewer_reader (snd (update_index (logged_seq ops) V i)))
            = log @ (if ?c = index V then [] else [?c])"
      by (rule update_index_reads [OF V])
    with i show "index (snd (update_index (logged_seq ops) V i)) = ?c
                \<and> snd (viewer_reader (snd (update_index (logged_seq ops) V i)))
                    = log @ (if ?c = index V then []
                             else [index (snd (update_index (logged_seq ops) V i))])"
      by simp
  qed
  have g: "?c \<noteq> index self \<longrightarrow>
              (\<forall>img s'. seq_getitem ops (viewer_reader self) ?c = (Inr img, s') \<longrightarrow>
                 original_image (snd (update_index ops self i)) = img
                 \<and> viewer_reader (snd (update_index ops self i)) = s')"
    using update_index_read_result [of i ops self] by blast
  have u: "?c = index self \<longrightarrow> update_index ops self i = (None, self)"
    by (simp add: update_index_same)
  from a c have c': "0 \<le> index (snd (update_index ops self i))
         \<and> index (snd (update_index ops self i)) \<le> seq_len ops (viewer_reader self) - 1"
    by simp
  from a sl c' r g u show ?thesis by (intro conjI) blast+
qed

theorem update_index_clamps_witness:
  "0 < seq_len list_ops (viewer_reader
         \<lparr>pipelines = [], index = 0, viewer_reader = [Inr 10, Inr 20, Inr 30 :: exn + int],
          original_image = 10 :: int, priv_img = 10, slider_val = 0\<rparr>)
   \<and> index (snd (update_index list_ops
         \<lparr>pipelines = [], index = 0, viewer_reader = [Inr 10, Inr 20, Inr 30 :: exn + int],
          original_image = 10 :: int, priv_img = 10, slider_val = 0\<rparr> 1)) = 1
   \<and> original_image (snd (update_index list_ops
         \<lparr>pipelines = [], index = 0, viewer_reader = [Inr 10, Inr 20, Inr 30 :: exn + int],
          original_image = 10 :: int, priv_img = 10, slider_val = 0\<rparr> 1)) = 20
   \<and> snd (viewer_reader (snd (update_index (logged_seq list_ops)
         \<lparr>pipelines = [], index = 0,
          viewer_reader = ([Inr 10, Inr 20, Inr 30 :: exn + int], []),
          original_image = 10 :: int, priv_img = 10, slider_val = 0\<rparr> 1))) = [1]
   \<and> index (snd (update_index list_ops
         \<lparr>pipelines = [], index = 0, viewer_reader = [Inr 10, Inr 20, Inr 30 :: exn + int],
          original_image = 10 :: int, priv_img = 10, slider_val = 0\<rparr> 7)) = 2
   \<and> snd (viewer_reader (snd (update_index (logged_seq list_ops)
         \<lparr>pipelines = [], index = 0,
          viewer_reader = ([Inr 10, Inr 20, Inr 30 :: exn + int], []),
          original_image = 10 :: int, priv_img = 10, slider_val = 0\<rparr> 7))) = [2]
   \<and> min (max (- 5) 0) (seq_len list_ops [Inr 10, Inr 20, Inr 30 :: exn + int] - 1) = 0
   \<and> update_index list_ops
         \<lparr>pipelines = [], index = 0, viewer_reader = [Inr 10, Inr 20, Inr 30 :: exn + int],
          original_image = 10 :: int, priv_img = 10, slider_val = 0\<rparr> (- 5)
       = (None, \<lparr>pipelines = [], index = 0,
                 viewer_reader = [Inr 10, Inr 20, Inr 30 :: exn + int],
                 original_image = 10 :: int, priv_img = 10, slider_val = 0\<rparr>)"
proof -
  let ?V = "\<lparr>pipelines = [], index = 0, viewer_reader = [Inr 10, Inr 20, Inr 30 :: exn + int],
          original_image = 10 :: int, priv_img = 10, slider_val = 0\<rparr>"
  let ?L = "\<lparr>pipelines = [], index = 0,
          viewer_reader = ([Inr 10, Inr 20, Inr 30 :: exn + int], [] :: int list),
          original_image = 10 :: int, priv_img = 10, slider_val = 0\<rparr>"
  have pos: "0 < seq_len list_ops (viewer_reader ?V)"
    by (simp add: list_ops_simps)
  have c1: "min (max 1 0) (seq_len list_ops (viewer_reader ?V) - 1) = 1"
    and c7: "min (max 7 0) (seq_len list_ops (viewer_reader ?V) - 1) = 2"
    and c5: "min (max (- 5) 0) (seq_len list_ops [Inr 10, Inr 20, Inr 30 :: exn + int] - 1) = 0"
    by (simp_all add: list_ops_simps)
  note t1 = update_index_clamps [OF pos, of 1]
  note t7 = update_index_clamps [OF pos, of 7]
  note t5 = update_index_clamps [OF pos, of "- 5"]
  have vl: "viewer_reader ?L = (viewer_reader ?V, [])" by simp
  have rd1: "seq_getitem list_ops (viewer_reader ?V) 1 = (Inr 20, viewer_reader ?V)"
    by (simp add: list_ops_simps list_getitem_def)
  from t1 c1 have i1: "index (snd (update_index list_ops ?V 1)) = 1"
    by simp
  from t1 c1 rd1 have o1: "original_image (snd (update_index list_ops ?V 1)) = 20"
    by simp
  from t1 vl c1
  have "index (snd (update_index (logged_seq list_ops) ?L 1)) = 1
        \<and> snd (viewer_reader (snd (update_index (logged_seq list_ops) ?L 1)))
            = [] @ (if (1::int) = index ?L then []
                    else [index (snd (update_index (logged_seq list_ops) ?L 1))])"
    by (metis (no_types, lifting))
  then have l1: "snd (viewer_reader (snd (update_index (logged_seq list_ops) ?L 1))) = [1]"
    by simp
  from t7 c7 have i7: "index (snd (update_index list_ops ?V 7)) = 2"
    by simp
  from t7 vl c7
  have "index (snd (update_index (logged_seq list_ops) ?L 7)) = 2
        \<and> snd (viewer_reader (snd (update_index (logged_seq list_ops) ?L 7)))
            = [] @ (if (2::int) = index ?L then []
                    else [index (snd (update_index (logged_seq list_ops) ?L 7))])"
    by (metis (no_types, lifting))
  then have l7: "snd (viewer_reader (snd (update_index (logged_seq list_ops) ?L 7))) = [2]"
    by simp
  from t5 c5 have u5: "update_index list_ops ?V (- 5) = (None, ?V)"
    by simp
  from pos i1 o1 l1 i7 l7 c5 u5 show ?thesis by (intro conjI)
qed


end
